theory Spec2Isabelle
  imports Complex_Main "HOL-Library.AList"
begin

section \<open>MoE routers for KV-cache compression (kvpress/presses/moe\_router\_press.py)\<close>

text \<open>
  A shallow embedding of the routers and of the press that owns them.
  Python floats are modelled by exact reals, \<open>int(x)\<close> on a float by truncation
  towards zero, tensors of rank 4 by a shape and a cell function, tensors of
  rank 3 and below by nested lists. Exceptions raised by Python or torch are
  values of type \<open>error\<close>; a method that mutates its object returns the object.
\<close>

subsection \<open>Errors\<close>

datatype error =
  KeyError nat
  | ZeroDivisionError
  | IndexError
  | RuntimeError
  | ValueError
  | TypeError

definition ebind :: "error + 'a \<Rightarrow> ('a \<Rightarrow> error + 'b) \<Rightarrow> error + 'b" where
  "ebind m f = (case m of Inl e \<Rightarrow> Inl e | Inr x \<Rightarrow> f x)"

fun emap :: "('a \<Rightarrow> error + 'b) \<Rightarrow> 'a list \<Rightarrow> error + 'b list" where
  "emap f [] = Inr []"
| "emap f (x # xs) =
     (case f x of
        Inl e \<Rightarrow> Inl e
      | Inr y \<Rightarrow> (case emap f xs of Inl e \<Rightarrow> Inl e | Inr ys \<Rightarrow> Inr (y # ys)))"

text \<open>\<open>xs[i]\<close> for a non-negative index: out of range raises.\<close>

definition at_index :: "'a list \<Rightarrow> nat \<Rightarrow> error + 'a" where
  "at_index xs i = (if i < length xs then Inr (xs ! i) else Inl IndexError)"

text \<open>\<open>int(x)\<close> on a float: truncation towards zero.\<close>

definition py_int :: "real \<Rightarrow> int" where
  "py_int x = (if 0 \<le> x then \<lfloor>x\<rfloor> else \<lceil>x\<rceil>)"

subsection \<open>Tensors of rank 4\<close>

record tensor4 =
  shape4 :: "nat \<times> nat \<times> nat \<times> nat"
  cell :: "nat \<times> nat \<times> nat \<times> nat \<Rightarrow> real"

fun in_shape4 :: "nat \<times> nat \<times> nat \<times> nat \<Rightarrow> nat \<times> nat \<times> nat \<times> nat \<Rightarrow> bool" where
  "in_shape4 (n0, n1, n2, n3) (i, j, k, l) = (i < n0 \<and> j < n1 \<and> k < n2 \<and> l < n3)"

text \<open>\<open>torch.zeros(n0, n1, n2, n3)\<close>; a negative dimension raises.\<close>

definition zeros4 :: "nat \<Rightarrow> nat \<Rightarrow> nat \<Rightarrow> int \<Rightarrow> error + tensor4" where
  "zeros4 n0 n1 n2 n3 =
     (if n3 < 0 then Inl RuntimeError
      else Inr \<lparr>shape4 = (n0, n1, n2, nat n3), cell = (\<lambda>_. 0)\<rparr>)"

text \<open>\<open>t[i, j, k, l] = v\<close>.\<close>

definition set4 :: "tensor4 \<Rightarrow> nat \<times> nat \<times> nat \<times> nat \<Rightarrow> real \<Rightarrow> error + tensor4" where
  "set4 t ix v =
     (if in_shape4 (shape4 t) ix then Inr (t\<lparr>cell := (cell t)(ix := v)\<rparr>)
      else Inl IndexError)"

subsection \<open>Layers of \<open>nn.Sequential\<close>\<close>

datatype layer =
  Linear "real list list" "real list"
  | ReLU
  | Dropout real
  | Sigmoid
  | Tanh
  | Softmax

definition dot :: "real list \<Rightarrow> real list \<Rightarrow> real" where
  "dot xs ys = sum_list (map2 (*) xs ys)"

definition softmax :: "real list \<Rightarrow> real list" where
  "softmax xs = map (\<lambda>x. exp x / sum_list (map exp xs)) xs"

text \<open>
  One layer applied to one feature vector. \<open>training\<close> is the module's mode
  and \<open>keep\<close> the mask drawn by an active dropout layer for this vector.
  A linear layer given a vector of the wrong length raises.
\<close>

fun apply_layer :: "bool \<Rightarrow> (nat \<Rightarrow> bool) \<Rightarrow> layer \<Rightarrow> real list \<Rightarrow> error + real list" where
  "apply_layer training keep (Linear W b) x =
     (if list_all (\<lambda>row. length row = length x) W \<and> length b = length W
      then Inr (map2 (\<lambda>row bi. dot row x + bi) W b)
      else Inl RuntimeError)"
| "apply_layer training keep ReLU x = Inr (map (max 0) x)"
| "apply_layer training keep (Dropout p) x =
     (if training
      then Inr (map (\<lambda>(j, v). if keep j then v / (1 - p) else 0) (zip [0..<length x] x))
      else Inr x)"
| "apply_layer training keep Sigmoid x = Inr (map (\<lambda>v. 1 / (1 + exp (- v))) x)"
| "apply_layer training keep Tanh x = Inr (map tanh x)"
| "apply_layer training keep Softmax x = Inr (softmax x)"

fun apply_seq :: "bool \<Rightarrow> (nat \<Rightarrow> bool) \<Rightarrow> layer list \<Rightarrow> real list \<Rightarrow> error + real list" where
  "apply_seq training keep [] x = Inr x"
| "apply_seq training keep (l # ls) x =
     (case apply_layer training keep l x of
        Inl e \<Rightarrow> Inl e
      | Inr y \<Rightarrow> apply_seq training keep ls y)"

text \<open>
  \<open>nn.Linear(n_in, n_out)\<close> after \<open>xavier_normal_\<close> on the weight and
  \<open>zeros_\<close> on the bias; \<open>rnd i j\<close> is the value drawn for weight \<open>[i, j]\<close>.
\<close>

definition init_linear :: "nat \<Rightarrow> nat \<Rightarrow> (nat \<Rightarrow> nat \<Rightarrow> real) \<Rightarrow> layer" where
  "init_linear n_in n_out rnd =
     Linear (map (\<lambda>i. map (rnd i) [0..<n_in]) [0..<n_out]) (replicate n_out 0)"

text \<open>A network applied to every token of a \<open>[batch, seq, features]\<close> tensor.\<close>

definition apply_tokens ::
  "bool \<Rightarrow> (nat \<Rightarrow> nat \<Rightarrow> nat \<Rightarrow> bool) \<Rightarrow> layer list \<Rightarrow> real list list list
     \<Rightarrow> error + real list list list" where
  "apply_tokens training keep net hs =
     emap (\<lambda>(b, row). emap (\<lambda>(s, x). apply_seq training (keep b s) net x)
                           (zip [0..<length row] row))
          (zip [0..<length hs] hs)"

subsection \<open>Shapes, means, top-k\<close>

text \<open>
  \<open>batch_size, seq_len, _ = hidden_states.shape\<close>; a nested list with no
  batch row is read as having sequence length 0.
\<close>

definition batch_size_of :: "'a list list \<Rightarrow> nat" where
  "batch_size_of hs = length hs"

definition seq_len_of :: "'a list list \<Rightarrow> nat" where
  "seq_len_of hs = (case hs of [] \<Rightarrow> 0 | row # _ \<Rightarrow> length row)"

definition mean :: "real list \<Rightarrow> real" where
  "mean xs = sum_list xs / real (length xs)"

text \<open>\<open>probs.mean(dim=[0, 1])\<close> of a \<open>[batch, seq, n]\<close> tensor.\<close>

definition mean_per_expert :: "nat \<Rightarrow> real list list list \<Rightarrow> real list" where
  "mean_per_expert n probs =
     map (\<lambda>e. mean (map (\<lambda>p. p ! e) (concat probs))) [0..<n]"

text \<open>
  \<open>torch.topk(xs, k)\<close>: the \<open>k\<close> largest entries in descending order with
  their indices; among equal entries the lower index comes first. \<open>k\<close>
  beyond the length raises.
\<close>

definition topk :: "nat \<Rightarrow> real list \<Rightarrow> error + (real list \<times> nat list)" where
  "topk k xs =
     (if length xs < k then Inl RuntimeError
      else let sel = take k (sort_key (\<lambda>(i, v). - v) (zip [0..<length xs] xs))
           in Inr (map snd sel, map fst sel))"

definition topk_tokens ::
  "nat \<Rightarrow> real list list list \<Rightarrow> error + (real list list list \<times> nat list list list)" where
  "topk_tokens k probs =
     ebind (emap (emap (topk k)) probs)
       (\<lambda>sel. Inr (map (map fst) sel, map (map snd) sel))"

text \<open>\<open>torch.argmax\<close>: the index of the first maximal entry.\<close>

definition argmax :: "real list \<Rightarrow> error + nat" where
  "argmax xs =
     (if xs = [] then Inl RuntimeError
      else Inr (hd (filter (\<lambda>i. xs ! i = Max (set xs)) [0..<length xs])))"

text \<open>\<open>(indices == e).sum()\<close>.\<close>

definition count_expert :: "nat list list list \<Rightarrow> nat \<Rightarrow> nat" where
  "count_expert idxs e = length (filter (\<lambda>i. i = e) (concat (concat idxs)))"

subsection \<open>BaseMoERouter\<close>

record base_router =
  hidden_size :: nat
  num_experts :: nat
  top_k :: nat
  capacity_factor :: real
  dropout :: real
  router :: "layer list"
  training :: bool
  total_tokens :: real
  expert_usage_count :: "real list"
  routing_decisions :: "real list"

text \<open>
  The random draws of a constructor: \<open>weight g n i j\<close> and \<open>bias g n i\<close>
  are the values drawn for the \<open>n\<close>-th linear layer the constructor creates.
\<close>

record rng =
  weight :: "nat \<Rightarrow> nat \<Rightarrow> nat \<Rightarrow> real"
  bias :: "nat \<Rightarrow> nat \<Rightarrow> real"

definition zero_rng :: rng where
  "zero_rng = \<lparr>weight = (\<lambda>_ _ _. 0), bias = (\<lambda>_ _. 0)\<rparr>"

text \<open>\<open>nn.Linear(n_in, n_out)\<close> left with its default random weight and bias.\<close>

definition default_linear :: "nat \<Rightarrow> nat \<Rightarrow> rng \<Rightarrow> nat \<Rightarrow> layer" where
  "default_linear n_in n_out g n =
     Linear (map (\<lambda>i. map (weight g n i) [0..<n_in]) [0..<n_out]) (map (bias g n) [0..<n_out])"

text \<open>
  \<open>__init__\<close> followed by \<open>_init_weights\<close>: zero biases and drawn weights
  for the two linear layers of \<open>router\<close>; a fresh module is in training mode.
\<close>

definition new_base_router ::
  "nat \<Rightarrow> nat \<Rightarrow> nat \<Rightarrow> real \<Rightarrow> real \<Rightarrow> rng \<Rightarrow> base_router" where
  "new_base_router hsz ne k cf dr g =
     \<lparr>hidden_size = hsz, num_experts = ne, top_k = min k ne,
      capacity_factor = cf, dropout = dr,
      router = [init_linear hsz hsz (weight g 0), ReLU, Dropout dr,
                init_linear hsz ne (weight g 1)],
      training = True,
      total_tokens = 0,
      expert_usage_count = replicate ne 0,
      routing_decisions = replicate ne 0\<rparr>"

definition compute_capacity :: "'a base_router_scheme \<Rightarrow> nat \<Rightarrow> nat \<Rightarrow> error + int" where
  "compute_capacity r batch_size seq_len =
     (let total = batch_size * seq_len
      in if num_experts r = 0 then Inl ZeroDivisionError
         else Inr (py_int (real total * capacity_factor r * real (top_k r)
                            / real (num_experts r))))"

text \<open>The loop state of \<open>_create_dispatch_combine_tensors\<close>.\<close>

record dispatch_state =
  dispatch_tensor :: tensor4
  combine_tensor :: tensor4
  expert_capacity_used :: "nat list"

definition dispatch_step ::
  "nat list list list \<Rightarrow> real list list list \<Rightarrow> nat \<Rightarrow> nat \<times> nat \<times> nat
     \<Rightarrow> dispatch_state \<Rightarrow> error + dispatch_state" where
  "dispatch_step top_k_indices top_k_probs capacity bsk st =
     (case bsk of (b, s, k) \<Rightarrow>
        ebind (at_index top_k_indices b) (\<lambda>ib. ebind (at_index ib s) (\<lambda>ibs.
        ebind (at_index ibs k) (\<lambda>expert_idx.
        ebind (at_index top_k_probs b) (\<lambda>pb. ebind (at_index pb s) (\<lambda>pbs.
        ebind (at_index pbs k) (\<lambda>prob.
        ebind (at_index (expert_capacity_used st) expert_idx) (\<lambda>used.
          if used < capacity then
            ebind (set4 (dispatch_tensor st) (b, s, expert_idx, used) 1) (\<lambda>d.
            ebind (set4 (combine_tensor st) (b, s, expert_idx, used) prob) (\<lambda>c.
              Inr \<lparr>dispatch_tensor = d, combine_tensor = c,
                   expert_capacity_used =
                     (expert_capacity_used st)[expert_idx := used + 1]\<rparr>))
          else Inr st))))))))"

fun dispatch_loop ::
  "nat list list list \<Rightarrow> real list list list \<Rightarrow> nat \<Rightarrow> (nat \<times> nat \<times> nat) list
     \<Rightarrow> dispatch_state \<Rightarrow> error + dispatch_state" where
  "dispatch_loop top_k_indices top_k_probs capacity [] st = Inr st"
| "dispatch_loop top_k_indices top_k_probs capacity (bsk # rest) st =
     (case dispatch_step top_k_indices top_k_probs capacity bsk st of
        Inl e \<Rightarrow> Inl e
      | Inr st' \<Rightarrow> dispatch_loop top_k_indices top_k_probs capacity rest st')"

text \<open>The iteration order \<open>for b: for s: for k\<close>.\<close>

definition loop_order :: "nat \<Rightarrow> nat \<Rightarrow> nat \<Rightarrow> (nat \<times> nat \<times> nat) list" where
  "loop_order batch_size seq_len k =
     concat (map (\<lambda>b. concat (map (\<lambda>s. map (\<lambda>j. (b, s, j)) [0..<k]) [0..<seq_len]))
                 [0..<batch_size])"

definition create_dispatch_combine_tensors ::
  "'a base_router_scheme \<Rightarrow> nat list list list \<Rightarrow> real list list list \<Rightarrow> nat \<Rightarrow> nat
     \<Rightarrow> error + (tensor4 \<times> tensor4)" where
  "create_dispatch_combine_tensors r top_k_indices top_k_probs batch_size seq_len =
     ebind (compute_capacity r batch_size seq_len) (\<lambda>capacity.
     ebind (zeros4 batch_size seq_len (num_experts r) capacity) (\<lambda>d0.
     ebind (zeros4 batch_size seq_len (num_experts r) capacity) (\<lambda>c0.
     ebind (dispatch_loop top_k_indices top_k_probs (nat capacity)
              (loop_order batch_size seq_len (top_k r))
              \<lparr>dispatch_tensor = d0, combine_tensor = c0,
               expert_capacity_used = replicate (num_experts r) 0\<rparr>) (\<lambda>st.
       Inr (dispatch_tensor st, combine_tensor st)))))"

text \<open>How many cells of expert \<open>e\<close> hold a dispatched token.\<close>

definition dispatched_to :: "tensor4 \<Rightarrow> nat \<Rightarrow> nat" where
  "dispatched_to d e =
     (case shape4 d of (n0, n1, n2, n3) \<Rightarrow>
        length (filter (\<lambda>(b, s, p). cell d (b, s, e, p) \<noteq> 0)
                  (List.product [0..<n0] (List.product [0..<n1] [0..<n3]))))"

text \<open>
  \<open>_compute_load_balancing_loss\<close>: mean router probability per expert times
  the share of top-k choices that name the expert, summed and scaled.
\<close>

definition compute_load_balancing_loss ::
  "'a base_router_scheme \<Rightarrow> real list list list \<Rightarrow> nat list list list \<Rightarrow> real" where
  "compute_load_balancing_loss r router_probs expert_indices =
     (let router_prob_per_expert = mean_per_expert (num_experts r) router_probs;
          expert_usage_rate =
            map (\<lambda>e. real (count_expert expert_indices e)
                        / real (length (concat (concat expert_indices))))
                [0..<num_experts r];
          balance_loss = sum_list (map2 (*) router_prob_per_expert expert_usage_rate)
      in balance_loss * real (num_experts r))"

text \<open>\<open>torch.finfo(torch.float32).min\<close>.\<close>

definition finfo_min :: real where
  "finfo_min = - (2 - 1 / 2 ^ 23) * 2 ^ 127"

definition apply_expert_mask ::
  "real list option \<Rightarrow> real list list list \<Rightarrow> real list list list" where
  "apply_expert_mask expert_mask router_logits =
     (case expert_mask of
        None \<Rightarrow> router_logits
      | Some m \<Rightarrow>
          map (map (\<lambda>row. map2 (\<lambda>l mk. l + (1 - mk) * finfo_min) row m)) router_logits)"

text \<open>\<open>top_k_probs / (top_k_probs.sum(dim=-1, keepdim=True) + 1e-8)\<close>.\<close>

definition renormalize :: "real list list list \<Rightarrow> real list list list" where
  "renormalize top_k_probs =
     map (map (\<lambda>ps. map (\<lambda>p. p / (sum_list ps + 1 / 10 ^ 8)) ps)) top_k_probs"

text \<open>The statistics update that ends \<open>BaseMoERouter.forward\<close>.\<close>

definition update_base_stats ::
  "nat \<Rightarrow> nat \<Rightarrow> nat list list list \<Rightarrow> 'a base_router_scheme \<Rightarrow> 'a base_router_scheme" where
  "update_base_stats batch_size seq_len top_k_indices r =
     r\<lparr>total_tokens := total_tokens r + real (batch_size * seq_len),
       expert_usage_count :=
         map (\<lambda>(e, c). if e < num_experts r then c + real (count_expert top_k_indices e) else c)
             (zip [0..<length (expert_usage_count r)] (expert_usage_count r)),
       routing_decisions :=
         map (\<lambda>(e, c). if e < num_experts r then c + real (count_expert top_k_indices e) else c)
             (zip [0..<length (routing_decisions r)] (routing_decisions r))\<rparr>"

type_synonym routing = "tensor4 \<times> tensor4 \<times> real list list list \<times> real"

text \<open>
  \<open>BaseMoERouter.forward\<close>. The result pairs what the call returns, or the
  exception it raises, with the router as the call leaves it.
\<close>

definition base_forward ::
  "'a base_router_scheme \<Rightarrow> real list list list \<Rightarrow> real list option
     \<Rightarrow> (nat \<Rightarrow> nat \<Rightarrow> nat \<Rightarrow> bool) \<Rightarrow> (error + routing) \<times> 'a base_router_scheme" where
  "base_forward r hidden_states expert_mask keep =
     (let batch_size = batch_size_of hidden_states;
          seq_len = seq_len_of hidden_states
      in case apply_tokens (training r) keep (router r) hidden_states of
           Inl e \<Rightarrow> (Inl e, r)
         | Inr router_logits \<Rightarrow>
             (let router_probs = map (map softmax) (apply_expert_mask expert_mask router_logits)
              in case topk_tokens (top_k r) router_probs of
                   Inl e \<Rightarrow> (Inl e, r)
                 | Inr (top_k_probs, top_k_indices) \<Rightarrow>
                     (case create_dispatch_combine_tensors r top_k_indices
                             (renormalize top_k_probs) batch_size seq_len of
                        Inl e \<Rightarrow> (Inl e, r)
                      | Inr (d, c) \<Rightarrow>
                          (Inr (d, c, router_probs,
                                compute_load_balancing_loss r router_probs top_k_indices),
                           update_base_stats batch_size seq_len top_k_indices r))))"

text \<open>\<open>get_routing_stats\<close> and \<open>reset_stats\<close> of the base class.\<close>

record routing_stats =
  expert_usage_ratios :: "real list"
  stat_expert_usage_count :: "real list"
  stat_total_tokens :: real
  stat_routing_decisions :: "real list"

definition get_routing_stats :: "'a base_router_scheme \<Rightarrow> routing_stats" where
  "get_routing_stats r =
     \<lparr>expert_usage_ratios =
        (if total_tokens r > 0 then map (\<lambda>c. c / total_tokens r) (expert_usage_count r)
         else map (\<lambda>_. 0) (expert_usage_count r)),
      stat_expert_usage_count = expert_usage_count r,
      stat_total_tokens = total_tokens r,
      stat_routing_decisions = routing_decisions r\<rparr>"

definition router_reset_stats :: "'a base_router_scheme \<Rightarrow> 'a base_router_scheme" where
  "router_reset_stats r =
     r\<lparr>total_tokens := 0,
       expert_usage_count := map (\<lambda>_. 0) (expert_usage_count r),
       routing_decisions := map (\<lambda>_. 0) (routing_decisions r)\<rparr>"

text \<open>Invariant of the dispatch loop for a tensor shape \<open>(B, S, E, capacity)\<close>.\<close>

definition dispatch_inv :: "nat \<times> nat \<times> nat \<times> nat \<Rightarrow> dispatch_state \<Rightarrow> bool" where
  "dispatch_inv sh st =
     (case sh of (B, S, E, cap) \<Rightarrow>
        shape4 (dispatch_tensor st) = sh \<and> shape4 (combine_tensor st) = sh \<and>
        length (expert_capacity_used st) = E \<and>
        (\<forall>e<E. expert_capacity_used st ! e \<le> cap) \<and>
        (\<forall>b s e p. cell (dispatch_tensor st) (b, s, e, p) \<noteq> 0
                     \<longrightarrow> e < E \<and> p < expert_capacity_used st ! e) \<and>
        (\<forall>b s b' s' e p. cell (dispatch_tensor st) (b, s, e, p) \<noteq> 0
                     \<and> cell (dispatch_tensor st) (b', s', e, p) \<noteq> 0 \<longrightarrow> b = b' \<and> s = s') \<and>
        (\<forall>ix. cell (dispatch_tensor st) ix = 0 \<longrightarrow> cell (combine_tensor st) ix = 0))"

text \<open>
  The shape of what \<open>torch.topk(probs, K)\<close> returns for a
  \<open>[B, S, E]\<close> tensor: \<open>[B, S, K]\<close> values and indices below \<open>E\<close>.
\<close>

definition topk_shape ::
  "nat \<Rightarrow> nat \<Rightarrow> nat \<Rightarrow> nat \<Rightarrow> nat list list list \<Rightarrow> real list list list \<Rightarrow> bool" where
  "topk_shape B S K E idxs probs =
     (length idxs = B \<and> length probs = B \<and>
      list_all (\<lambda>row. length row = S \<and>
                  list_all (\<lambda>ks. length ks = K \<and> list_all (\<lambda>e. e < E) ks) row) idxs \<and>
      list_all (\<lambda>row. length row = S \<and> list_all (\<lambda>ks. length ks = K) row) probs)"

subsection \<open>TopKBalancedRouter\<close>

record topk_balanced_router = base_router +
  balance_coefficient :: real
  balance_mode :: string
  balance_loss_history :: "real list"
  balance_loss_idx :: nat

definition new_topk_balanced_router ::
  "nat \<Rightarrow> nat \<Rightarrow> nat \<Rightarrow> real \<Rightarrow> real \<Rightarrow> real \<Rightarrow> string \<Rightarrow> rng \<Rightarrow> topk_balanced_router" where
  "new_topk_balanced_router hsz ne k cf dr bc bm g =
     \<lparr>hidden_size = hsz, num_experts = ne, top_k = min k ne,
      capacity_factor = cf, dropout = dr,
      router = [init_linear hsz hsz (weight g 0), ReLU, Dropout dr,
                init_linear hsz ne (weight g 1)],
      training = True,
      total_tokens = 0,
      expert_usage_count = replicate ne 0,
      routing_decisions = replicate ne 0,
      balance_coefficient = bc, balance_mode = bm,
      balance_loss_history = replicate 100 0, balance_loss_idx = 0\<rparr>"

text \<open>\<open>torch.var\<close> with its default correction of one degree of freedom.\<close>

definition var :: "real list \<Rightarrow> real" where
  "var xs = sum_list (map (\<lambda>x. (x - mean xs) ^ 2) xs) / (real (length xs) - 1)"

text \<open>The three balance modes of \<open>_compute_advanced_balance_loss\<close>.\<close>

definition entropy_loss :: "nat \<Rightarrow> real list \<Rightarrow> real" where
  "entropy_loss n expert_probs =
     (let entropy = - sum_list (map (\<lambda>p. p * ln (p + 1 / 10 ^ 8)) expert_probs);
          max_entropy = ln (real n)
      in 1 - entropy / max_entropy)"

definition variance_loss :: "nat \<Rightarrow> real list \<Rightarrow> real" where
  "variance_loss n expert_probs =
     (let target_prob = 1 / real n
      in var (map (\<lambda>p. p - target_prob) expert_probs))"

definition gini_loss :: "nat \<Rightarrow> real list \<Rightarrow> real" where
  "gini_loss n expert_probs =
     (let sorted_probs = sort expert_probs;
          index = map real [1..<n + 1];
          gini = 2 * sum_list (map2 (*) index sorted_probs)
                   / (real n * sum_list sorted_probs) - 1
      in gini)"

text \<open>
  \<open>_compute_advanced_balance_loss\<close>. \<open>math.log(0)\<close> and \<open>1.0 / 0\<close> raise; an
  unknown mode reaches \<open>F.one_hot(None)\<close>, which raises.
\<close>

definition compute_advanced_balance_loss ::
  "'a topk_balanced_router_scheme \<Rightarrow> real list list list \<Rightarrow> error + real" where
  "compute_advanced_balance_loss r router_probs =
     (let expert_probs = mean_per_expert (num_experts r) router_probs
      in if balance_mode r = ''entropy'' then
           (if num_experts r = 0 then Inl ValueError
            else Inr (entropy_loss (num_experts r) expert_probs))
         else if balance_mode r = ''variance'' then
           (if num_experts r = 0 then Inl ZeroDivisionError
            else Inr (variance_loss (num_experts r) expert_probs))
         else if balance_mode r = ''gini'' then
           Inr (gini_loss (num_experts r) expert_probs)
         else Inl TypeError)"

definition topk_balanced_forward ::
  "'a topk_balanced_router_scheme \<Rightarrow> real list list list \<Rightarrow> real list option
     \<Rightarrow> (nat \<Rightarrow> nat \<Rightarrow> nat \<Rightarrow> bool)
     \<Rightarrow> (error + routing) \<times> 'a topk_balanced_router_scheme" where
  "topk_balanced_forward r hidden_states expert_mask keep =
     (case base_forward r hidden_states expert_mask keep of
        (Inl e, r1) \<Rightarrow> (Inl e, r1)
      | (Inr (d, c, router_probs, base_aux_loss), r1) \<Rightarrow>
          (case compute_advanced_balance_loss r1 router_probs of
             Inl e \<Rightarrow> (Inl e, r1)
           | Inr advanced_balance_loss \<Rightarrow>
               (Inr (d, c, router_probs,
                     base_aux_loss + balance_coefficient r1 * advanced_balance_loss),
                r1\<lparr>balance_loss_history :=
                      (balance_loss_history r1)
                        [balance_loss_idx r1 mod 100 := advanced_balance_loss],
                    balance_loss_idx := balance_loss_idx r1 + 1\<rparr>)))"

text \<open>
  \<open>get_balance_loss_stats\<close>: average, minimum, maximum and standard deviation
  of the valid history entries, or nothing when there is none.
\<close>

definition balance_valid_entries :: "'a topk_balanced_router_scheme \<Rightarrow> nat" where
  "balance_valid_entries r = min (balance_loss_idx r) 100"

definition get_balance_loss_stats ::
  "'a topk_balanced_router_scheme \<Rightarrow> (real \<times> real \<times> real \<times> real) option" where
  "get_balance_loss_stats r =
     (let valid_entries = balance_valid_entries r
      in if valid_entries > 0 then
           (let recent_losses = take valid_entries (balance_loss_history r)
            in Some (mean recent_losses, Min (set recent_losses), Max (set recent_losses),
                     sqrt (var recent_losses)))
         else None)"

subsection \<open>AdaptiveRouter\<close>

record adaptive_router = base_router +
  importance_threshold :: real
  adaptive_top_k :: bool
  importance_predictor :: "layer list"
  top_k_predictor :: "layer list option"
  importance_history :: "real list"
  importance_idx :: nat

definition new_adaptive_router ::
  "nat \<Rightarrow> nat \<Rightarrow> nat \<Rightarrow> real \<Rightarrow> real \<Rightarrow> real \<Rightarrow> bool \<Rightarrow> rng \<Rightarrow> adaptive_router" where
  "new_adaptive_router hsz ne k cf dr thr atk g =
     \<lparr>hidden_size = hsz, num_experts = ne, top_k = min k ne,
      capacity_factor = cf, dropout = dr,
      router = [init_linear hsz hsz (weight g 0), ReLU, Dropout dr,
                init_linear hsz ne (weight g 1)],
      training = True,
      total_tokens = 0,
      expert_usage_count = replicate ne 0,
      routing_decisions = replicate ne 0,
      importance_threshold = thr, adaptive_top_k = atk,
      importance_predictor =
        [default_linear hsz (hsz div 2) g 2, ReLU, Dropout dr,
         default_linear (hsz div 2) 1 g 3, Sigmoid],
      top_k_predictor =
        (if atk then Some [default_linear (hsz + 1) (hsz div 4) g 4, ReLU,
                           default_linear (hsz div 4) k g 5, Softmax]
         else None),
      importance_history = replicate 1000 0, importance_idx = 0\<rparr>"

text \<open>\<open>_compute_importance\<close>: one score per token, \<open>squeeze(-1)\<close> of a last axis of size 1.\<close>

definition compute_importance ::
  "'a adaptive_router_scheme \<Rightarrow> real list list list \<Rightarrow> (nat \<Rightarrow> nat \<Rightarrow> nat \<Rightarrow> bool)
     \<Rightarrow> error + real list list" where
  "compute_importance r hidden_states keep =
     ebind (apply_tokens (training r) keep (importance_predictor r) hidden_states)
       (\<lambda>imp. emap (emap (\<lambda>v. case v of [x] \<Rightarrow> Inr x | _ \<Rightarrow> Inl RuntimeError)) imp)"

text \<open>\<open>hidden_states.mean(dim=[0, 1])\<close>.\<close>

definition mean_features :: "real list list list \<Rightarrow> real list" where
  "mean_features hs =
     (case concat hs of
        [] \<Rightarrow> []
      | x # xs \<Rightarrow> map (\<lambda>j. mean (map (\<lambda>v. v ! j) (x # xs))) [0..<length x])"

definition adapt_top_k ::
  "'a adaptive_router_scheme \<Rightarrow> real list list list \<Rightarrow> real list list \<Rightarrow> error + nat" where
  "adapt_top_k r hidden_states importance =
     (case top_k_predictor r of
        None \<Rightarrow> Inr (top_k r)
      | Some predictor \<Rightarrow>
          if \<not> adaptive_top_k r then Inr (top_k r)
          else
            (let avg_features = mean_features hidden_states;
                 avg_importance = mean (concat importance);
                 combined_features = avg_features @ [avg_importance]
             in ebind (apply_seq (training r) (\<lambda>_. True) predictor combined_features)
                  (\<lambda>top_k_probs. ebind (argmax top_k_probs)
                  (\<lambda>i. Inr (min (i + 1) (top_k r))))))"

text \<open>\<open>combine_tensor * (1.0 + importance_expanded)\<close>, broadcast over experts and slots.\<close>

definition scale_by_importance :: "real \<Rightarrow> real list list \<Rightarrow> tensor4 \<Rightarrow> tensor4" where
  "scale_by_importance threshold importance c =
     c\<lparr>cell := (\<lambda>(b, s, e, p).
          if in_shape4 (shape4 c) (b, s, e, p)
          then cell c (b, s, e, p) * (1 + (if importance ! b ! s > threshold then 1 else 0))
          else cell c (b, s, e, p))\<rparr>"

text \<open>A value appended to a circular history of the given capacity.\<close>

definition record_importance ::
  "real list list \<Rightarrow> 'a adaptive_router_scheme \<Rightarrow> 'a adaptive_router_scheme" where
  "record_importance importance r =
     foldl (\<lambda>r' imp_val.
              r'\<lparr>importance_history :=
                    (importance_history r')[importance_idx r' mod 1000 := imp_val],
                  importance_idx := importance_idx r' + 1\<rparr>)
           r (concat importance)"

type_synonym routing_imp =
  "tensor4 \<times> tensor4 \<times> real list list list \<times> real \<times> real list list"

text \<open>
  \<open>AdaptiveRouter.forward\<close>: \<open>top_k\<close> is set to the adapted value around the
  base call and set back once that call has returned.
\<close>

definition adaptive_forward ::
  "'a adaptive_router_scheme \<Rightarrow> real list list list \<Rightarrow> real list option
     \<Rightarrow> (nat \<Rightarrow> nat \<Rightarrow> nat \<Rightarrow> bool) \<Rightarrow> (nat \<Rightarrow> nat \<Rightarrow> nat \<Rightarrow> bool)
     \<Rightarrow> (error + routing_imp) \<times> 'a adaptive_router_scheme" where
  "adaptive_forward r hidden_states expert_mask keep keep_imp =
     (case compute_importance r hidden_states keep_imp of
        Inl e \<Rightarrow> (Inl e, r)
      | Inr importance \<Rightarrow>
          (case adapt_top_k r hidden_states importance of
             Inl e \<Rightarrow> (Inl e, r)
           | Inr current_top_k \<Rightarrow>
               (let original_top_k = top_k r;
                    r1 = r\<lparr>top_k := current_top_k\<rparr>
                in case base_forward r1 hidden_states expert_mask keep of
                     (Inl e, r2) \<Rightarrow> (Inl e, r2)
                   | (Inr (d, c, router_probs, aux_loss), r2) \<Rightarrow>
                       (let r3 = r2\<lparr>top_k := original_top_k\<rparr>;
                            c' = scale_by_importance (importance_threshold r3) importance c
                        in (Inr (d, c', router_probs, aux_loss, importance),
                            record_importance importance r3)))))"

subsection \<open>PiKVMoERouter\<close>

record pikv_router = adaptive_router +
  cache_aware :: bool
  cache_update_interval :: nat
  cache_usage_history :: "real list list"
  cache_hit_rates :: "real list"
  cache_update_counter :: nat
  cache_router_adjustment :: "layer list option"

definition new_pikv_router ::
  "nat \<Rightarrow> nat \<Rightarrow> nat \<Rightarrow> real \<Rightarrow> real \<Rightarrow> real \<Rightarrow> bool \<Rightarrow> nat \<Rightarrow> rng \<Rightarrow> pikv_router" where
  "new_pikv_router hsz ne k cf dr thr ca interval g =
     \<lparr>hidden_size = hsz, num_experts = ne, top_k = min k ne,
      capacity_factor = cf, dropout = dr,
      router = [init_linear hsz hsz (weight g 0), ReLU, Dropout dr,
                init_linear hsz ne (weight g 1)],
      training = True,
      total_tokens = 0,
      expert_usage_count = replicate ne 0,
      routing_decisions = replicate ne 0,
      importance_threshold = thr, adaptive_top_k = True,
      importance_predictor =
        [default_linear hsz (hsz div 2) g 2, ReLU, Dropout dr,
         default_linear (hsz div 2) 1 g 3, Sigmoid],
      top_k_predictor =
        Some [default_linear (hsz + 1) (hsz div 4) g 4, ReLU,
              default_linear (hsz div 4) k g 5, Softmax],
      importance_history = replicate 1000 0, importance_idx = 0,
      cache_aware = ca, cache_update_interval = interval,
      cache_usage_history = replicate ne (replicate 100 0),
      cache_hit_rates = replicate ne 0,
      cache_update_counter = 0,
      cache_router_adjustment =
        (if ca then Some [default_linear (hsz + ne) hsz g 6, ReLU,
                          default_linear hsz ne g 7, Tanh]
         else None)\<rparr>"

definition update_cache_usage ::
  "int \<Rightarrow> real \<Rightarrow> 'a pikv_router_scheme \<Rightarrow> 'a pikv_router_scheme" where
  "update_cache_usage expert_idx cache_hit_rate r =
     (let r1 =
        (if 0 \<le> expert_idx \<and> expert_idx < int (num_experts r) then
           r\<lparr>cache_hit_rates := (cache_hit_rates r)[nat expert_idx := cache_hit_rate],
             cache_usage_history :=
               (cache_usage_history r)
                 [nat expert_idx :=
                    (cache_usage_history r ! nat expert_idx)
                      [cache_update_counter r mod 100 := cache_hit_rate]]\<rparr>
         else r)
      in r1\<lparr>cache_update_counter := cache_update_counter r1 + 1\<rparr>)"

text \<open>
  \<open>_compute_cache_aware_adjustment\<close>: one adjustment vector per batch row, from
  the row's mean features and the cache hit rates, repeated along the sequence.
\<close>

definition compute_cache_aware_adjustment ::
  "'a pikv_router_scheme \<Rightarrow> real list list list \<Rightarrow> real list list list
     \<Rightarrow> error + real list list list" where
  "compute_cache_aware_adjustment r hidden_states router_logits =
     (case cache_router_adjustment r of
        None \<Rightarrow> Inr (map (map (map (\<lambda>_. 0))) router_logits)
      | Some net \<Rightarrow>
          if \<not> cache_aware r then Inr (map (map (map (\<lambda>_. 0))) router_logits)
          else
            emap (\<lambda>row.
                    ebind (apply_seq (training r) (\<lambda>_. True) net
                             (mean_features [row] @ cache_hit_rates r))
                      (\<lambda>adj. Inr (replicate (length row) adj)))
                 hidden_states)"

text \<open>Elementwise sum of two tensors of one shape; differing shapes raise.\<close>

definition add3 ::
  "real list list list \<Rightarrow> real list list list \<Rightarrow> error + real list list list" where
  "add3 xs ys =
     (if map (map length) xs = map (map length) ys
      then Inr (map2 (map2 (map2 (+))) xs ys)
      else Inl RuntimeError)"

definition update_usage_count ::
  "nat \<Rightarrow> nat \<Rightarrow> nat list list list \<Rightarrow> 'a base_router_scheme \<Rightarrow> 'a base_router_scheme" where
  "update_usage_count batch_size seq_len top_k_indices r =
     r\<lparr>total_tokens := total_tokens r + real (batch_size * seq_len),
       expert_usage_count :=
         map (\<lambda>(e, c). if e < num_experts r then c + real (count_expert top_k_indices e) else c)
             (zip [0..<length (expert_usage_count r)] (expert_usage_count r))\<rparr>"

text \<open>
  \<open>PiKVMoERouter.forward\<close>: \<open>top_k\<close> is set to the adapted value around the
  creation of the dispatch tensors only.
\<close>

definition pikv_forward ::
  "'a pikv_router_scheme \<Rightarrow> real list list list \<Rightarrow> real list option
     \<Rightarrow> (nat \<Rightarrow> nat \<Rightarrow> nat \<Rightarrow> bool) \<Rightarrow> (nat \<Rightarrow> nat \<Rightarrow> nat \<Rightarrow> bool)
     \<Rightarrow> (error + routing_imp) \<times> 'a pikv_router_scheme" where
  "pikv_forward r hidden_states expert_mask keep keep_imp =
     (let batch_size = batch_size_of hidden_states;
          seq_len = seq_len_of hidden_states;
          prepared =
            ebind (apply_tokens (training r) keep (router r) hidden_states) (\<lambda>logits0.
            ebind (if cache_aware r
                   then ebind (compute_cache_aware_adjustment r hidden_states logits0)
                          (add3 logits0)
                   else Inr logits0) (\<lambda>logits1.
            let router_probs = map (map softmax) (apply_expert_mask expert_mask logits1)
            in ebind (compute_importance r hidden_states keep_imp) (\<lambda>importance.
               ebind (adapt_top_k r hidden_states importance) (\<lambda>current_top_k.
               ebind (topk_tokens current_top_k router_probs) (\<lambda>(top_k_probs, top_k_indices).
                 Inr (router_probs, importance, current_top_k,
                      renormalize top_k_probs, top_k_indices))))))
      in case prepared of
           Inl e \<Rightarrow> (Inl e, r)
         | Inr (router_probs, importance, current_top_k, top_k_probs, top_k_indices) \<Rightarrow>
             (let original_top_k = top_k r;
                  r1 = r\<lparr>top_k := current_top_k\<rparr>
              in case create_dispatch_combine_tensors r1 top_k_indices top_k_probs
                        batch_size seq_len of
                   Inl e \<Rightarrow> (Inl e, r1)
                 | Inr (d, c) \<Rightarrow>
                     (let r2 = r1\<lparr>top_k := original_top_k\<rparr>;
                          aux_loss = compute_load_balancing_loss r2 router_probs top_k_indices
                      in (Inr (d, c, router_probs, aux_loss, importance),
                          update_usage_count batch_size seq_len top_k_indices r2))))"

subsection \<open>EPLBRouter\<close>

record eplb_router = base_router +
  eplb_balance_coefficient :: real
  temperature :: real
  expert_weights :: "real list"
  expert_load_history :: "real list list"
  load_history_idx :: nat

definition new_eplb_router ::
  "nat \<Rightarrow> nat \<Rightarrow> nat \<Rightarrow> real \<Rightarrow> real \<Rightarrow> real \<Rightarrow> real \<Rightarrow> rng \<Rightarrow> eplb_router" where
  "new_eplb_router hsz ne k cf dr bc temp g =
     \<lparr>hidden_size = hsz, num_experts = ne, top_k = min k ne,
      capacity_factor = cf, dropout = dr,
      router = [init_linear hsz hsz (weight g 0), ReLU, Dropout dr,
                init_linear hsz ne (weight g 1)],
      training = True,
      total_tokens = 0,
      expert_usage_count = replicate ne 0,
      routing_decisions = replicate ne 0,
      eplb_balance_coefficient = bc, temperature = temp,
      expert_weights = replicate ne 1,
      expert_load_history = replicate ne (replicate 50 0),
      load_history_idx = 0\<rparr>"

definition clamp :: "real \<Rightarrow> real \<Rightarrow> real \<Rightarrow> real" where
  "clamp lo hi x = min (max x lo) hi"

definition update_expert_weights :: "real list \<Rightarrow> 'a eplb_router_scheme \<Rightarrow> 'a eplb_router_scheme" where
  "update_expert_weights expert_usage r =
     (let idx = load_history_idx r mod 50;
          r1 = r\<lparr>expert_load_history :=
                   map (\<lambda>(row, u). row[idx := u]) (zip (expert_load_history r) expert_usage),
                 load_history_idx := load_history_idx r + 1\<rparr>;
          valid_entries = min (load_history_idx r1) 50
      in if valid_entries > 0 then
           (let avg_loads = map (\<lambda>row. mean (take valid_entries row)) (expert_load_history r1);
                target_load = mean avg_loads;
                weight_adjustments =
                  map (\<lambda>l. 1 - (l - target_load) / (target_load + 1 / 10 ^ 8)) avg_loads
            in r1\<lparr>expert_weights :=
                    map (clamp (1 / 10) 2)
                        (map2 (\<lambda>w a. 9 / 10 * w + 1 / 10 * a) (expert_weights r1)
                              weight_adjustments)\<rparr>)
         else r1)"

definition compute_exact_balance_loss ::
  "'a eplb_router_scheme \<Rightarrow> real list list list \<Rightarrow> nat list list list \<Rightarrow> real" where
  "compute_exact_balance_loss r router_probs expert_indices =
     (let expert_counts = map (\<lambda>e. real (count_expert expert_indices e)) [0..<num_experts r];
          total_assignments = sum_list expert_counts;
          target_count = total_assignments / real (num_experts r);
          balance_loss = sum_list (map (\<lambda>c. (c - target_count) ^ 2) expert_counts)
                           / total_assignments
      in eplb_balance_coefficient r * balance_loss)"

definition eplb_forward ::
  "'a eplb_router_scheme \<Rightarrow> real list list list \<Rightarrow> real list option
     \<Rightarrow> (nat \<Rightarrow> nat \<Rightarrow> nat \<Rightarrow> bool) \<Rightarrow> (error + routing) \<times> 'a eplb_router_scheme" where
  "eplb_forward r hidden_states expert_mask keep =
     (let batch_size = batch_size_of hidden_states;
          seq_len = seq_len_of hidden_states
      in case apply_tokens (training r) keep (router r) hidden_states of
           Inl e \<Rightarrow> (Inl e, r)
         | Inr logits0 \<Rightarrow>
             (let weighted = map (map (\<lambda>row. map2 (*) row (expert_weights r))) logits0;
                  scaled = map (map (map (\<lambda>l. l / temperature r))) weighted;
                  router_probs = map (map softmax) (apply_expert_mask expert_mask scaled)
              in case topk_tokens (top_k r) router_probs of
                   Inl e \<Rightarrow> (Inl e, r)
                 | Inr (top_k_probs, top_k_indices) \<Rightarrow>
                     (case create_dispatch_combine_tensors r top_k_indices
                             (renormalize top_k_probs) batch_size seq_len of
                        Inl e \<Rightarrow> (Inl e, r)
                      | Inr (d, c) \<Rightarrow>
                          (Inr (d, c, router_probs,
                                compute_exact_balance_loss r router_probs top_k_indices),
                           update_expert_weights
                             (map (\<lambda>e. real (count_expert top_k_indices e))
                                  [0..<num_experts r]) r))))"

subsection \<open>HierarchicalRouter\<close>

record hierarchical_router = base_router +
  num_groups :: nat
  group_top_k :: nat
  experts_per_group :: nat
  group_router :: "layer list"
  intra_group_routers :: "layer list list"

text \<open>\<open>num_experts // num_groups\<close> raises for no group.\<close>

definition new_hierarchical_router ::
  "nat \<Rightarrow> nat \<Rightarrow> nat \<Rightarrow> real \<Rightarrow> real \<Rightarrow> nat \<Rightarrow> nat \<Rightarrow> rng \<Rightarrow> error + hierarchical_router" where
  "new_hierarchical_router hsz ne k cf dr ng gtk g =
     (if ng = 0 then Inl ZeroDivisionError
      else Inr
        \<lparr>hidden_size = hsz, num_experts = ne, top_k = min k ne,
         capacity_factor = cf, dropout = dr,
         router = [init_linear hsz hsz (weight g 0), ReLU, Dropout dr,
                   init_linear hsz ne (weight g 1)],
         training = True,
         total_tokens = 0,
         expert_usage_count = replicate ne 0,
         routing_decisions = replicate ne 0,
         num_groups = ng, group_top_k = gtk, experts_per_group = ne div ng,
         group_router = [init_linear hsz (hsz div 2) (weight g 2), ReLU, Dropout dr,
                         init_linear (hsz div 2) ng (weight g 3)],
         intra_group_routers =
           map (\<lambda>j. [init_linear hsz (hsz div 4) (weight g (4 + 2 * j)), ReLU,
                      init_linear (hsz div 4) (ne div ng) (weight g (5 + 2 * j))])
               [0..<ng]\<rparr>)"

fun efold :: "('b \<Rightarrow> 'a \<Rightarrow> error + 'b) \<Rightarrow> 'b \<Rightarrow> 'a list \<Rightarrow> error + 'b" where
  "efold f acc [] = Inr acc"
| "efold f acc (x # xs) = (case f acc x of Inl e \<Rightarrow> Inl e | Inr acc' \<Rightarrow> efold f acc' xs)"

text \<open>The tokens of a \<open>[B, S, _]\<close> tensor in row-major order.\<close>

definition token_positions :: "nat \<Rightarrow> nat \<Rightarrow> (nat \<times> nat) list" where
  "token_positions B S = concat (map (\<lambda>b. map (\<lambda>s. (b, s)) [0..<S]) [0..<B])"

text \<open>
  \<open>final_expert_probs[batch_indices, seq_indices, expert_idx] = final_intra_probs[:, i]\<close>:
  the \<open>n\<close>-th masked token receives entry \<open>i\<close> of the \<open>n\<close>-th row.
\<close>

definition put ::
  "nat \<Rightarrow> real list list list \<Rightarrow> (nat \<times> nat) \<times> real \<Rightarrow> real list list list" where
  "put expert_idx = (\<lambda>f ((b, s), v). f[b := (f ! b)[s := (f ! b ! s)[expert_idx := v]]])"

definition scatter_column ::
  "(nat \<times> nat) list \<Rightarrow> real list list \<Rightarrow> nat \<Rightarrow> nat \<Rightarrow> real list list list
     \<Rightarrow> error + real list list list" where
  "scatter_column masked final_intra_probs i expert_idx final_expert_probs =
     ebind (emap (\<lambda>row. at_index row i) final_intra_probs) (\<lambda>col.
       Inr (foldl (put expert_idx) final_expert_probs (zip masked col)))"

text \<open>
  The body of \<open>for g in range(num_groups)\<close> for the \<open>j\<close>-th group choice:
  the tokens whose \<open>j\<close>-th group is \<open>g\<close> are routed by the group's own network
  and their probabilities, times the group probability, written at the
  group's expert offset.
\<close>

definition route_group ::
  "'a hierarchical_router_scheme \<Rightarrow> real list list list \<Rightarrow> real list list list
     \<Rightarrow> nat list list list \<Rightarrow> nat \<Rightarrow> real list list list \<Rightarrow> nat
     \<Rightarrow> error + real list list list" where
  "route_group r hidden_states top_group_probs top_group_indices j final_expert_probs g =
     (let masked = filter (\<lambda>(b, s). top_group_indices ! b ! s ! j = g)
                     (token_positions (batch_size_of hidden_states) (seq_len_of hidden_states))
      in if masked = [] then Inr final_expert_probs
         else
           ebind (at_index (intra_group_routers r) g) (\<lambda>net.
           ebind (emap (\<lambda>(b, s). apply_seq (training r) (\<lambda>_. True) net (hidden_states ! b ! s))
                       masked) (\<lambda>intra_group_logits.
             let intra_group_probs = map softmax intra_group_logits;
                 group_prob_values = map (\<lambda>(b, s). top_group_probs ! b ! s ! j) masked;
                 final_intra_probs =
                   map2 (\<lambda>ps gp. map (\<lambda>p. p * gp) ps) intra_group_probs group_prob_values;
                 expert_start_idx = g * experts_per_group r
             in efold (\<lambda>f i.
                         let expert_idx = expert_start_idx + i
                         in if expert_idx < num_experts r
                            then scatter_column masked final_intra_probs i expert_idx f
                            else Inr f)
                      final_expert_probs [0..<experts_per_group r])))"

text \<open>
  The two stages of \<open>HierarchicalRouter.forward\<close> up to the composed
  probabilities: group probabilities, the top groups of every token with
  their probabilities, and \<open>final_expert_probs\<close>.
\<close>

definition hierarchical_probs ::
  "'a hierarchical_router_scheme \<Rightarrow> real list list list \<Rightarrow> (nat \<Rightarrow> nat \<Rightarrow> nat \<Rightarrow> bool)
     \<Rightarrow> error + (real list list list \<times> real list list list \<times> nat list list list
                  \<times> real list list list)" where
  "hierarchical_probs r hidden_states keep =
     (let batch_size = batch_size_of hidden_states;
          seq_len = seq_len_of hidden_states;
          gk = min (group_top_k r) (num_groups r)
      in ebind (apply_tokens (training r) keep (group_router r) hidden_states) (\<lambda>group_logits.
         let group_probs = map (map softmax) group_logits
         in ebind (topk_tokens gk group_probs) (\<lambda>(top_group_probs, top_group_indices).
            ebind (efold (\<lambda>f j.
                            efold (route_group r hidden_states top_group_probs
                                     top_group_indices j)
                                  f [0..<num_groups r])
                         (replicate batch_size (replicate seq_len (replicate (num_experts r) 0)))
                         [0..<gk]) (\<lambda>final_expert_probs.
              Inr (group_probs, top_group_probs, top_group_indices, final_expert_probs)))))"

definition compute_group_balance_loss ::
  "'a hierarchical_router_scheme \<Rightarrow> real list list list \<Rightarrow> nat list list list \<Rightarrow> real" where
  "compute_group_balance_loss r group_probs group_indices =
     (let group_prob_per_group = mean_per_expert (num_groups r) group_probs;
          group_usage_rate =
            map (\<lambda>g. real (count_expert group_indices g)
                        / real (length (concat (concat group_indices))))
                [0..<num_groups r];
          balance_loss = sum_list (map2 (*) group_prob_per_group group_usage_rate)
      in balance_loss * real (num_groups r))"

definition hierarchical_forward ::
  "'a hierarchical_router_scheme \<Rightarrow> real list list list \<Rightarrow> real list option
     \<Rightarrow> (nat \<Rightarrow> nat \<Rightarrow> nat \<Rightarrow> bool)
     \<Rightarrow> (error + routing) \<times> 'a hierarchical_router_scheme" where
  "hierarchical_forward r hidden_states expert_mask keep =
     (case hierarchical_probs r hidden_states keep of
        Inl e \<Rightarrow> (Inl e, r)
      | Inr (group_probs, top_group_probs, top_group_indices, final_expert_probs) \<Rightarrow>
          (case topk_tokens (top_k r) final_expert_probs of
             Inl e \<Rightarrow> (Inl e, r)
           | Inr (top_k_probs, top_k_indices) \<Rightarrow>
               (case create_dispatch_combine_tensors r top_k_indices
                       (renormalize top_k_probs) (batch_size_of hidden_states)
                       (seq_len_of hidden_states) of
                  Inl e \<Rightarrow> (Inl e, r)
                | Inr (d, c) \<Rightarrow>
                    (Inr (d, c, final_expert_probs,
                          compute_group_balance_loss r group_probs top_group_indices
                            + compute_load_balancing_loss r final_expert_probs top_k_indices),
                     r))))"

subsection \<open>Compression strategies\<close>

text \<open>
  Keys and values are \<open>[batch, heads, seq, head_dim]\<close> tensors; the operations
  below act on the sequence axis. Cells outside the shape carry no meaning.
\<close>

definition seq_dim :: "tensor4 \<Rightarrow> nat" where
  "seq_dim t = (case shape4 t of (n0, n1, n2, n3) \<Rightarrow> n2)"

text \<open>\<open>t[:, :, :n]\<close>.\<close>

definition slice_front :: "nat \<Rightarrow> tensor4 \<Rightarrow> tensor4" where
  "slice_front n t =
     (case shape4 t of (n0, n1, n2, n3) \<Rightarrow> t\<lparr>shape4 := (n0, n1, min n n2, n3)\<rparr>)"

text \<open>\<open>t[:, :, -n:]\<close>; for \<open>n = 0\<close> this is \<open>t[:, :, 0:]\<close>, the whole tensor.\<close>

definition slice_back :: "nat \<Rightarrow> tensor4 \<Rightarrow> tensor4" where
  "slice_back n t =
     (case shape4 t of (n0, n1, n2, n3) \<Rightarrow>
        if n = 0 then t
        else let start = n2 - min n n2
             in \<lparr>shape4 = (n0, n1, n2 - start, n3),
                 cell = (\<lambda>(b, h, s, d). cell t (b, h, start + s, d))\<rparr>)"

text \<open>\<open>torch.cat([a, b], dim=2)\<close> of two slices of one tensor.\<close>

definition cat_seq :: "tensor4 \<Rightarrow> tensor4 \<Rightarrow> tensor4" where
  "cat_seq a b =
     (case shape4 a of (n0, n1, na, n3) \<Rightarrow>
        \<lparr>shape4 = (n0, n1, na + seq_dim b, n3),
         cell = (\<lambda>(i, h, s, d). if s < na then cell a (i, h, s, d)
                                  else cell b (i, h, s - na, d))\<rparr>)"

text \<open>\<open>t[:, :, indices, :]\<close>; an index beyond the sequence raises.\<close>

definition index_select_seq :: "nat list \<Rightarrow> tensor4 \<Rightarrow> error + tensor4" where
  "index_select_seq indices t =
     (case shape4 t of (n0, n1, n2, n3) \<Rightarrow>
        if list_all (\<lambda>i. i < n2) indices
        then Inr \<lparr>shape4 = (n0, n1, length indices, n3),
                  cell = (\<lambda>(b, h, s, d). if s < length indices
                                          then cell t (b, h, indices ! s, d) else 0)\<rparr>
        else Inl IndexError)"

text \<open>The three window strategies: keep a front and a back share of the sequence.\<close>

definition keep_windows :: "real \<Rightarrow> real \<Rightarrow> tensor4 \<Rightarrow> tensor4 \<Rightarrow> tensor4 \<times> tensor4" where
  "keep_windows front back keys vals =
     (let seq_len = seq_dim keys;
          keep_front = nat (max 1 (py_int (real seq_len * front)));
          keep_back = nat (max 1 (py_int (real seq_len * back)))
      in if seq_len > keep_front + keep_back
         then (cat_seq (slice_front keep_front keys) (slice_back keep_back keys),
               cat_seq (slice_front keep_front vals) (slice_back keep_back vals))
         else (keys, vals))"

text \<open>\<open>router_probs.mean(dim=0).mean(dim=-1)\<close>: one score per position.\<close>

definition importance_scores :: "real list list list \<Rightarrow> real list" where
  "importance_scores router_probs =
     (let n_exp = (case concat router_probs of [] \<Rightarrow> 0 | p # _ \<Rightarrow> length p)
      in map (\<lambda>s. mean (map (\<lambda>e. mean (map (\<lambda>row. row ! s ! e) router_probs)) [0..<n_exp]))
             [0..<seq_len_of router_probs])"

text \<open>\<open>torch.linspace(0, 1, n)\<close>.\<close>

definition linspace01 :: "nat \<Rightarrow> real list" where
  "linspace01 n = map (\<lambda>i. real i / real (n - 1)) [0..<n]"

definition num_keep_of :: "real \<Rightarrow> nat \<Rightarrow> int" where
  "num_keep_of ratio seq_len =
     min (max 1 (py_int (real seq_len * (1 - ratio)))) (int seq_len)"

text \<open>
  The scores the selective strategy ranks: the importance scores, or the
  linear ramp when their number is not the sequence length. (The scores of a
  rank-3 \<open>router_probs\<close> have rank 1, so the two rank repairs of the source
  never apply.)
\<close>

definition selective_scores :: "nat \<Rightarrow> real list list list \<Rightarrow> real list" where
  "selective_scores seq_len router_probs =
     (let scores = importance_scores router_probs
      in if length scores \<noteq> seq_len then linspace01 seq_len else scores)"

text \<open>\<open>important_indices\<close>: the top \<open>num_keep\<close> positions, sorted ascending.\<close>

definition important_indices :: "real \<Rightarrow> nat \<Rightarrow> real list list list \<Rightarrow> error + nat list" where
  "important_indices ratio seq_len router_probs =
     ebind (topk (nat (num_keep_of ratio seq_len)) (selective_scores seq_len router_probs))
       (\<lambda>(_, indices). Inr (sort indices))"

text \<open>\<open>_apply_expert_compression\<close>; \<open>ratio\<close> is the press's \<open>compression_ratio\<close>.\<close>

definition apply_expert_compression ::
  "real \<Rightarrow> tensor4 \<Rightarrow> tensor4 \<Rightarrow> string \<Rightarrow> real list list list
     \<Rightarrow> error + (tensor4 \<times> tensor4)" where
  "apply_expert_compression ratio keys vals strategy router_probs =
     (if strategy = ''aggressive'' then Inr (keep_windows (2 / 10) (1 / 10) keys vals)
      else if strategy = ''moderate'' then Inr (keep_windows (3 / 10) (2 / 10) keys vals)
      else if strategy = ''conservative'' then Inr (keep_windows (5 / 10) (3 / 10) keys vals)
      else if strategy = ''selective'' then
        ebind (important_indices ratio (seq_dim keys) router_probs) (\<lambda>indices.
        ebind (index_select_seq indices keys) (\<lambda>keys'.
        ebind (index_select_seq indices vals) (\<lambda>vals'.
          Inr (keys', vals'))))
      else Inr (keys, vals))"

definition compute_cache_hit_rate :: "tensor4 \<Rightarrow> tensor4 \<Rightarrow> real" where
  "compute_cache_hit_rate keys vals = min 1 (real (seq_dim keys) / 1000)"

subsection \<open>MoERouterPress\<close>

datatype any_router =
  BaseR base_router
  | TopKBalancedR topk_balanced_router
  | AdaptiveR adaptive_router
  | PiKVR pikv_router
  | EPLBR eplb_router
  | HierarchicalR hierarchical_router

record compression_stats =
  expert_usage :: "real list"
  compression_ratios :: "real list"
  stat_cache_hit_rates :: "real list"

text \<open>
  The dataclass fields, prefixed \<open>p_\<close> where a router field has the same
  name, and the attributes set by \<open>__post_init__\<close>. The dictionaries are
  association lists in insertion order.
\<close>

record moe_router_press =
  p_num_experts :: nat
  p_top_k :: nat
  p_capacity_factor :: real
  p_dropout :: real
  router_type :: string
  p_cache_aware :: bool
  compression_ratio :: real
  aux_loss_weight :: real
  p_balance_coefficient :: real
  p_balance_mode :: string
  p_importance_threshold :: real
  p_adaptive_top_k :: bool
  p_temperature :: real
  p_num_groups :: nat
  p_group_top_k :: nat
  routers :: "(nat \<times> any_router) list"
  expert_compression_stats :: "(nat \<times> compression_stats) list"
  total_aux_loss :: real
  forward_count :: nat
  expert_strategies :: "(nat \<times> string) list"

definition post_init :: "'a moe_router_press_scheme \<Rightarrow> 'a moe_router_press_scheme" where
  "post_init p =
     p\<lparr>routers := [], expert_compression_stats := [],
       total_aux_loss := 0, forward_count := 0,
       expert_strategies :=
         [(0, ''aggressive''), (1, ''moderate''), (2, ''conservative''), (3, ''selective'')]\<rparr>"

text \<open>The router that \<open>_get_router\<close> constructs for the configured type.\<close>

definition construct_router ::
  "'a moe_router_press_scheme \<Rightarrow> nat \<Rightarrow> rng \<Rightarrow> error + any_router" where
  "construct_router p hsz g =
     (if router_type p = ''topk_balanced'' then
        Inr (TopKBalancedR (new_topk_balanced_router hsz (p_num_experts p) (p_top_k p)
               (p_capacity_factor p) (p_dropout p) (p_balance_coefficient p)
               (p_balance_mode p) g))
      else if router_type p = ''adaptive'' then
        Inr (AdaptiveR (new_adaptive_router hsz (p_num_experts p) (p_top_k p)
               (p_capacity_factor p) (p_dropout p) (p_importance_threshold p)
               (p_adaptive_top_k p) g))
      else if router_type p = ''pikv'' then
        Inr (PiKVR (new_pikv_router hsz (p_num_experts p) (p_top_k p)
               (p_capacity_factor p) (p_dropout p) (p_importance_threshold p)
               (p_cache_aware p) 100 g))
      else if router_type p = ''eplb'' then
        Inr (EPLBR (new_eplb_router hsz (p_num_experts p) (p_top_k p)
               (p_capacity_factor p) (p_dropout p) (p_balance_coefficient p)
               (p_temperature p) g))
      else if router_type p = ''hierarchical'' then
        ebind (new_hierarchical_router hsz (p_num_experts p) (p_top_k p)
                 (p_capacity_factor p) (p_dropout p) (p_num_groups p) (p_group_top_k p) g)
              (\<lambda>r. Inr (HierarchicalR r))
      else
        Inr (BaseR (new_base_router hsz (p_num_experts p) (p_top_k p)
               (p_capacity_factor p) (p_dropout p) g)))"

definition get_router ::
  "'a moe_router_press_scheme \<Rightarrow> nat \<Rightarrow> nat \<Rightarrow> rng
     \<Rightarrow> error + (any_router \<times> 'a moe_router_press_scheme)" where
  "get_router p layer_idx hsz g =
     (case map_of (routers p) layer_idx of
        Some r \<Rightarrow> Inr (r, p)
      | None \<Rightarrow>
          ebind (construct_router p hsz g) (\<lambda>r.
            Inr (r, p\<lparr>routers := routers p @ [(layer_idx, r)],
                      expert_compression_stats :=
                        AList.update layer_idx
                          \<lparr>expert_usage = replicate (p_num_experts p) 0,
                           compression_ratios = replicate (p_num_experts p) 0,
                           stat_cache_hit_rates = replicate (p_num_experts p) 0\<rparr>
                          (expert_compression_stats p)\<rparr>)))"

definition any_num_experts :: "any_router \<Rightarrow> nat" where
  "any_num_experts ar =
     (case ar of BaseR r \<Rightarrow> num_experts r | TopKBalancedR r \<Rightarrow> num_experts r
      | AdaptiveR r \<Rightarrow> num_experts r | PiKVR r \<Rightarrow> num_experts r
      | EPLBR r \<Rightarrow> num_experts r | HierarchicalR r \<Rightarrow> num_experts r)"

text \<open>
  The router call of \<open>compress\<close>, with no expert mask: the adaptive routers
  return five values, the others four; \<open>compress\<close> reads the probabilities
  and the auxiliary loss.
\<close>

definition call_router ::
  "any_router \<Rightarrow> real list list list \<Rightarrow> (nat \<Rightarrow> nat \<Rightarrow> nat \<Rightarrow> bool)
     \<Rightarrow> (nat \<Rightarrow> nat \<Rightarrow> nat \<Rightarrow> bool)
     \<Rightarrow> (error + (real list list list \<times> real)) \<times> any_router" where
  "call_router ar hidden_states keep keep_imp =
     (case ar of
        BaseR r \<Rightarrow>
          (case base_forward r hidden_states None keep of
             (res, r') \<Rightarrow> (map_sum id (\<lambda>(d, c, probs, aux). (probs, aux)) res, BaseR r'))
      | TopKBalancedR r \<Rightarrow>
          (case topk_balanced_forward r hidden_states None keep of
             (res, r') \<Rightarrow>
               (map_sum id (\<lambda>(d, c, probs, aux). (probs, aux)) res, TopKBalancedR r'))
      | AdaptiveR r \<Rightarrow>
          (case adaptive_forward r hidden_states None keep keep_imp of
             (res, r') \<Rightarrow>
               (map_sum id (\<lambda>(d, c, probs, aux, imp). (probs, aux)) res, AdaptiveR r'))
      | PiKVR r \<Rightarrow>
          (case pikv_forward r hidden_states None keep keep_imp of
             (res, r') \<Rightarrow>
               (map_sum id (\<lambda>(d, c, probs, aux, imp). (probs, aux)) res, PiKVR r'))
      | EPLBR r \<Rightarrow>
          (case eplb_forward r hidden_states None keep of
             (res, r') \<Rightarrow> (map_sum id (\<lambda>(d, c, probs, aux). (probs, aux)) res, EPLBR r'))
      | HierarchicalR r \<Rightarrow>
          (case hierarchical_forward r hidden_states None keep of
             (res, r') \<Rightarrow>
               (map_sum id (\<lambda>(d, c, probs, aux). (probs, aux)) res, HierarchicalR r')))"

text \<open>\<open>hidden_states.shape[-1]\<close>.\<close>

definition hidden_dim_of :: "real list list list \<Rightarrow> nat" where
  "hidden_dim_of hs = (case concat hs of [] \<Rightarrow> 0 | x # _ \<Rightarrow> length x)"

text \<open>\<open>stats[layer_idx][field][dominant_expert] += v\<close> on the three statistics.\<close>

definition bump :: "nat \<Rightarrow> real \<Rightarrow> real list \<Rightarrow> real list" where
  "bump i v xs = xs[i := xs ! i + v]"

definition map_entry :: "nat \<Rightarrow> ('v \<Rightarrow> 'v) \<Rightarrow> (nat \<times> 'v) list \<Rightarrow> (nat \<times> 'v) list" where
  "map_entry k f al = map (\<lambda>(k', v). if k' = k then (k', f v) else (k', v)) al"

text \<open>
  \<open>compress\<close>, from the layer index, the hidden states and the layer's keys
  and values. The result pairs the compressed arrays, or the exception, with
  the press as the call leaves it.
\<close>

definition compress ::
  "'a moe_router_press_scheme \<Rightarrow> nat \<Rightarrow> real list list list \<Rightarrow> tensor4 \<Rightarrow> tensor4 \<Rightarrow> rng
     \<Rightarrow> (nat \<Rightarrow> nat \<Rightarrow> nat \<Rightarrow> bool) \<Rightarrow> (nat \<Rightarrow> nat \<Rightarrow> nat \<Rightarrow> bool)
     \<Rightarrow> (error + (tensor4 \<times> tensor4)) \<times> 'a moe_router_press_scheme" where
  "compress p layer_idx hidden_states keys vals g keep keep_imp =
     (case get_router p layer_idx (hidden_dim_of hidden_states) g of
        Inl e \<Rightarrow> (Inl e, p)
      | Inr (ar, p1) \<Rightarrow>
          (case call_router ar hidden_states keep keep_imp of
             (res, ar') \<Rightarrow>
               (let p2 = p1\<lparr>routers := map_entry layer_idx (\<lambda>_. ar') (routers p1)\<rparr>
                in case res of
                     Inl e \<Rightarrow> (Inl e, p2)
                   | Inr (router_probs, aux_loss) \<Rightarrow>
                       (let p3 = p2\<lparr>total_aux_loss := total_aux_loss p2 + aux_loss,
                                    forward_count := forward_count p2 + 1\<rparr>;
                            expert_probs = mean_per_expert (any_num_experts ar') router_probs
                        in case argmax expert_probs of
                             Inl e \<Rightarrow> (Inl e, p3)
                           | Inr dominant_expert \<Rightarrow>
                               (case map_of (expert_strategies p3) dominant_expert of
                                  None \<Rightarrow> (Inl (KeyError dominant_expert), p3)
                                | Some strategy \<Rightarrow>
                                    (case apply_expert_compression (compression_ratio p3)
                                            keys vals strategy router_probs of
                                       Inl e \<Rightarrow> (Inl e, p3)
                                     | Inr (compressed_keys, compressed_values) \<Rightarrow>
                                         (let p4 = p3\<lparr>expert_compression_stats :=
                                                map_entry layer_idx
                                                  (\<lambda>st. st\<lparr>expert_usage :=
                                                     bump dominant_expert 1 (expert_usage st)\<rparr>)
                                                  (expert_compression_stats p3)\<rparr>;
                                              original_size = seq_dim keys;
                                              compressed_size = seq_dim compressed_keys
                                          in if original_size = 0
                                             then (Inl ZeroDivisionError, p4)
                                             else
                                               (let ratio = (real original_size
                                                              - real compressed_size)
                                                            / real original_size;
                                                    cache_hit_rate = compute_cache_hit_rate
                                                      compressed_keys compressed_values;
                                                    p5 = p4\<lparr>expert_compression_stats :=
                                                      map_entry layer_idx
                                                        (\<lambda>st. st\<lparr>compression_ratios :=
                                                            bump dominant_expert ratio
                                                              (compression_ratios st),
                                                          stat_cache_hit_rates :=
                                                            bump dominant_expert cache_hit_rate
                                                              (stat_cache_hit_rates st)\<rparr>)
                                                        (expert_compression_stats p4)\<rparr>;
                                                    p6 = p5\<lparr>routers :=
                                                      map_entry layer_idx
                                                        (\<lambda>x. case x of
                                                           PiKVR r \<Rightarrow> PiKVR (update_cache_usage
                                                             (int dominant_expert)
                                                             cache_hit_rate r)
                                                         | _ \<Rightarrow> x)
                                                        (routers p5)\<rparr>
                                                in (Inr (compressed_keys, compressed_values),
                                                    p6)))))))))"

text \<open>\<open>get_stats\<close> and \<open>reset_stats\<close> of the press.\<close>

definition any_routing_stats :: "any_router \<Rightarrow> routing_stats" where
  "any_routing_stats ar =
     (case ar of BaseR r \<Rightarrow> get_routing_stats r | TopKBalancedR r \<Rightarrow> get_routing_stats r
      | AdaptiveR r \<Rightarrow> get_routing_stats r | PiKVR r \<Rightarrow> get_routing_stats r
      | EPLBR r \<Rightarrow> get_routing_stats r | HierarchicalR r \<Rightarrow> get_routing_stats r)"

definition any_reset_stats :: "any_router \<Rightarrow> any_router" where
  "any_reset_stats ar =
     (case ar of BaseR r \<Rightarrow> BaseR (router_reset_stats r)
      | TopKBalancedR r \<Rightarrow> TopKBalancedR (router_reset_stats r)
      | AdaptiveR r \<Rightarrow> AdaptiveR (router_reset_stats r)
      | PiKVR r \<Rightarrow> PiKVR (router_reset_stats r)
      | EPLBR r \<Rightarrow> EPLBR (router_reset_stats r)
      | HierarchicalR r \<Rightarrow> HierarchicalR (router_reset_stats r))"

record press_stats =
  s_total_aux_loss :: real
  s_avg_aux_loss :: real
  s_forward_count :: nat
  s_layer_stats :: "(nat \<times> routing_stats \<times> compression_stats) list"

definition get_stats :: "'a moe_router_press_scheme \<Rightarrow> error + press_stats" where
  "get_stats p =
     ebind (emap (\<lambda>(layer_idx, ar).
                    case map_of (expert_compression_stats p) layer_idx of
                      None \<Rightarrow> Inl (KeyError layer_idx)
                    | Some cs \<Rightarrow> Inr (layer_idx, any_routing_stats ar, cs))
                 (routers p)) (\<lambda>layer_stats.
       Inr \<lparr>s_total_aux_loss = total_aux_loss p,
            s_avg_aux_loss = total_aux_loss p / real (max 1 (forward_count p)),
            s_forward_count = forward_count p,
            s_layer_stats = layer_stats\<rparr>)"

definition reset_stats :: "'a moe_router_press_scheme \<Rightarrow> 'a moe_router_press_scheme" where
  "reset_stats p =
     p\<lparr>total_aux_loss := 0, forward_count := 0,
       routers := map (\<lambda>(layer_idx, ar). (layer_idx, any_reset_stats ar)) (routers p),
       expert_compression_stats :=
         map (\<lambda>(layer_idx, st).
                (layer_idx,
                 st\<lparr>expert_usage := map (\<lambda>_. 0) (expert_usage st),
                    compression_ratios := map (\<lambda>_. 0) (compression_ratios st),
                    stat_cache_hit_rates := map (\<lambda>_. 0) (stat_cache_hit_rates st)\<rparr>))
             (expert_compression_stats p)\<rparr>"

text \<open>The networks of a router, and its circular histories with their write cursors.\<close>

definition any_networks :: "any_router \<Rightarrow> layer list list" where
  "any_networks ar =
     (case ar of
        BaseR r \<Rightarrow> [router r]
      | TopKBalancedR r \<Rightarrow> [router r]
      | AdaptiveR r \<Rightarrow>
          [router r, importance_predictor r]
            @ (case top_k_predictor r of None \<Rightarrow> [] | Some n \<Rightarrow> [n])
      | PiKVR r \<Rightarrow>
          [router r, importance_predictor r]
            @ (case top_k_predictor r of None \<Rightarrow> [] | Some n \<Rightarrow> [n])
            @ (case cache_router_adjustment r of None \<Rightarrow> [] | Some n \<Rightarrow> [n])
      | EPLBR r \<Rightarrow> [router r]
      | HierarchicalR r \<Rightarrow> [router r, group_router r] @ intra_group_routers r)"

definition any_histories :: "any_router \<Rightarrow> (real list list \<times> nat) list" where
  "any_histories ar =
     (case ar of
        BaseR r \<Rightarrow> []
      | TopKBalancedR r \<Rightarrow> [([balance_loss_history r], balance_loss_idx r)]
      | AdaptiveR r \<Rightarrow> [([importance_history r], importance_idx r)]
      | PiKVR r \<Rightarrow>
          [([importance_history r], importance_idx r),
           (cache_usage_history r, cache_update_counter r)]
      | EPLBR r \<Rightarrow> [(expert_load_history r, load_history_idx r)]
      | HierarchicalR r \<Rightarrow> [])"

text \<open>
  A circular history holds \<open>min(cursor, capacity)\<close> valid entries: it is empty
  exactly when its cursor is 0.
\<close>

definition histories_empty :: "any_router \<Rightarrow> bool" where
  "histories_empty ar = list_all (\<lambda>(buffer, cursor). cursor = 0) (any_histories ar)"

text \<open>The press with the dataclass defaults, after \<open>__post_init__\<close>.\<close>

definition default_press :: moe_router_press where
  "default_press =
     post_init
       \<lparr>p_num_experts = 4, p_top_k = 2, p_capacity_factor = 3 / 2, p_dropout = 1 / 10,
        router_type = ''pikv'', p_cache_aware = True, compression_ratio = 1 / 2,
        aux_loss_weight = 1 / 100, p_balance_coefficient = 1 / 100,
        p_balance_mode = ''entropy'', p_importance_threshold = 1 / 2,
        p_adaptive_top_k = True, p_temperature = 1, p_num_groups = 4, p_group_top_k = 1,
        routers = [], expert_compression_stats = [], total_aux_loss = 0, forward_count = 0,
        expert_strategies = []\<rparr>"

text \<open>A balanced router in gini mode with four experts.\<close>

definition gini_router :: topk_balanced_router where
  "gini_router = new_topk_balanced_router 8 4 2 (3 / 2) 0 (1 / 100) ''gini'' zero_rng"

text \<open>A \<open>[1, 1, n, 1]\<close> tensor whose cell at position \<open>s\<close> holds \<open>s\<close>.\<close>

definition pos_tensor :: "nat \<Rightarrow> tensor4" where
  "pos_tensor n = \<lparr>shape4 = (1, 1, n, 1), cell = (\<lambda>(b, h, s, d). real s)\<rparr>"



text \<open>A router with one expert and room for one token out of two.\<close>

definition demo_router :: base_router where
  "demo_router = new_base_router 1 1 1 (1 / 2) 0 zero_rng"

text \<open>
  One call of \<open>compress\<close> on the default press: layer 0, one zero token of
  hidden size 1, a cache of four positions, every dropout mask keeping all.
\<close>

definition keep_all :: "nat \<Rightarrow> nat \<Rightarrow> nat \<Rightarrow> bool" where
  "keep_all b s j = True"

definition first_router :: pikv_router where
  "first_router = new_pikv_router 1 4 2 (3 / 2) (1 / 10) (1 / 2) True 100 zero_rng"

definition first_call ::
  "(error + (tensor4 \<times> tensor4)) \<times> moe_router_press" where
  "first_call =
     compress default_press 0 [[[0]]] (pos_tensor 4) (pos_tensor 4) zero_rng keep_all keep_all"

text \<open>Statistics whose every counter is zero.\<close>

definition zero_routing_stats :: "routing_stats \<Rightarrow> bool" where
  "zero_routing_stats rs =
     (stat_total_tokens rs = 0 \<and> list_all (\<lambda>x. x = 0) (stat_expert_usage_count rs) \<and>
      list_all (\<lambda>x. x = 0) (stat_routing_decisions rs) \<and>
      list_all (\<lambda>x. x = 0) (expert_usage_ratios rs))"

definition zero_compression_stats :: "compression_stats \<Rightarrow> bool" where
  "zero_compression_stats cs =
     (list_all (\<lambda>x. x = 0) (expert_usage cs) \<and> list_all (\<lambda>x. x = 0) (compression_ratios cs) \<and>
      list_all (\<lambda>x. x = 0) (stat_cache_hit_rates cs))"

text \<open>A press in use: one balanced router on layer 3 with counters and history filled.\<close>

definition busy_press :: moe_router_press where
  "busy_press =
     default_press
       \<lparr>routers :=
          [(3, TopKBalancedR
                 (gini_router\<lparr>total_tokens := 20, expert_usage_count := [12, 8, 11, 9],
                    routing_decisions := [12, 8, 11, 9],
                    balance_loss_history := (replicate 100 0)[0 := 1 / 4, 1 := 1 / 4],
                    balance_loss_idx := 2\<rparr>))],
        expert_compression_stats :=
          [(3, \<lparr>expert_usage = [2, 0, 0, 0], compression_ratios = [7 / 5, 0, 0, 0],
                 stat_cache_hit_rates = [3 / 50, 0, 0, 0]\<rparr>)],
        total_aux_loss := 2, forward_count := 2\<rparr>"

text \<open>An adaptive router as the press constructs it for hidden size 1.\<close>

definition first_adaptive :: adaptive_router where
  "first_adaptive = new_adaptive_router 1 4 2 (3 / 2) (1 / 10) (1 / 2) True zero_rng"

text \<open>
  A press configured for five experts whose layer 0 holds a base router with
  trained parameters: the last bias of the scoring network favours expert 4.
\<close>

definition trained_router :: base_router where
  "trained_router =
     (new_base_router 1 5 2 (3 / 2) 0 zero_rng)
       \<lparr>router := [Linear [[0]] [0], ReLU, Dropout 0,
                   Linear [[0], [0], [0], [0], [0]] [0, 0, 0, 0, ln 2]]\<rparr>"

definition five_press :: moe_router_press where
  "five_press =
     default_press
       \<lparr>p_num_experts := 5, router_type := ''base'', p_dropout := 0,
        routers := [(0, BaseR trained_router)],
        expert_compression_stats :=
          [(0, \<lparr>expert_usage = replicate 5 0, compression_ratios = replicate 5 0,
                 stat_cache_hit_rates = replicate 5 0\<rparr>)]\<rparr>"

text \<open>A nested list that is a tensor: every batch row has the same length.\<close>

definition rectangular :: "'a list list \<Rightarrow> bool" where
  "rectangular hs = list_all (\<lambda>row. length row = seq_len_of hs) hs"

text \<open>
  A hierarchical router for hidden size 1 with 8 experts in 4 groups, one group
  per token, whose group network has a trained bias that favours group 2.
\<close>

definition trained_hierarchical :: hierarchical_router where
  "trained_hierarchical =
     \<lparr>hidden_size = 1, num_experts = 8, top_k = 2,
      capacity_factor = 3 / 2, dropout = 0,
      router = [init_linear 1 1 (weight zero_rng 0), ReLU, Dropout 0,
                init_linear 1 8 (weight zero_rng 1)],
      training = True,
      total_tokens = 0,
      expert_usage_count = replicate 8 0,
      routing_decisions = replicate 8 0,
      num_groups = 4, group_top_k = 1, experts_per_group = 2,
      group_router = [Linear [] [], ReLU, Dropout 0, Linear [[], [], [], []] [0, 0, ln 2, 0]],
      intra_group_routers =
        replicate 4 [Linear [] [], ReLU, Linear [[], []] [0, 0]]\<rparr>"

section \<open>Proofs\<close>

subsection \<open>Dispatch within capacity\<close>

lemma ebind_Inr: "ebind m f = Inr y \<longleftrightarrow> (\<exists>x. m = Inr x \<and> f x = Inr y)"
  by (cases m) (auto simp: ebind_def)

lemma at_index_Inr: "at_index xs i = Inr x \<longleftrightarrow> i < length xs \<and> x = xs ! i"
  by (auto simp: at_index_def)

lemma dispatch_step_inv:
  assumes "dispatch_step ti tp cap bsk st = Inr st'" "dispatch_inv (B, S, E, cap) st"
  shows "dispatch_inv (B, S, E, cap) st'"
proof -
  obtain b s k where bsk: "bsk = (b, s, k)" by (cases bsk) auto
  from assms(1) obtain e prob where
    e: "e < length (expert_capacity_used st)" and
    r: "(if expert_capacity_used st ! e < cap then
            ebind (set4 (dispatch_tensor st) (b, s, e, expert_capacity_used st ! e) 1) (\<lambda>d.
            ebind (set4 (combine_tensor st) (b, s, e, expert_capacity_used st ! e) prob) (\<lambda>c.
              Inr \<lparr>dispatch_tensor = d, combine_tensor = c,
                   expert_capacity_used =
                     (expert_capacity_used st)[e := expert_capacity_used st ! e + 1]\<rparr>))
          else Inr st) = Inr st'"
    unfolding dispatch_step_def bsk by (auto simp: ebind_Inr at_index_Inr)
  show ?thesis
  proof (cases "expert_capacity_used st ! e < cap")
    case False
    with r assms(2) show ?thesis by simp
  next
    case True
    let ?u = "expert_capacity_used st ! e"
    from True r have st': "st' = \<lparr>dispatch_tensor = (dispatch_tensor st)\<lparr>cell := (cell (dispatch_tensor st))((b, s, e, ?u) := 1)\<rparr>,
        combine_tensor = (combine_tensor st)\<lparr>cell := (cell (combine_tensor st))((b, s, e, ?u) := prob)\<rparr>,
        expert_capacity_used = (expert_capacity_used st)[e := ?u + 1]\<rparr>"
      by (auto simp: ebind_Inr set4_def split: if_splits)
    from assms(2) have sh: "shape4 (dispatch_tensor st) = (B, S, E, cap)" "shape4 (combine_tensor st) = (B, S, E, cap)"
      and len: "length (expert_capacity_used st) = E"
      and le: "\<And>x. x < E \<Longrightarrow> expert_capacity_used st ! x \<le> cap"
      and nz: "\<And>b s x p. cell (dispatch_tensor st) (b, s, x, p) \<noteq> 0 \<Longrightarrow> x < E \<and> p < expert_capacity_used st ! x"
      and cz: "\<And>ix. cell (dispatch_tensor st) ix = 0 \<Longrightarrow> cell (combine_tensor st) ix = 0"
      unfolding dispatch_inv_def by auto
    from assms(2) have "\<forall>b s b' s' x p. cell (dispatch_tensor st) (b, s, x, p) \<noteq> 0
        \<and> cell (dispatch_tensor st) (b', s', x, p) \<noteq> 0 \<longrightarrow> b = b' \<and> s = s'"
      unfolding dispatch_inv_def by simp
    then have inj: "\<And>b s b' s' x p. cell (dispatch_tensor st) (b, s, x, p) \<noteq> 0 \<Longrightarrow> cell (dispatch_tensor st) (b', s', x, p) \<noteq> 0 \<Longrightarrow> b = b' \<and> s = s'"
      by blast
    have cd: "cell (dispatch_tensor st') = (cell (dispatch_tensor st))((b, s, e, ?u) := 1)"
      and cc: "cell (combine_tensor st') = (cell (combine_tensor st))((b, s, e, ?u) := prob)"
      and us: "expert_capacity_used st' = (expert_capacity_used st)[e := Suc ?u]"
      and sh': "shape4 (dispatch_tensor st') = (B, S, E, cap)" "shape4 (combine_tensor st') = (B, S, E, cap)"
      using sh by (simp_all add: st')
    have 1: "\<forall>x<E. expert_capacity_used st' ! x \<le> cap"
      using le True len e by (auto simp: us nth_list_update)
    have 2: "\<forall>b' s' x p. cell (dispatch_tensor st') (b', s', x, p) \<noteq> 0
                     \<longrightarrow> x < E \<and> p < expert_capacity_used st' ! x"
    proof (intro allI impI)
      fix b' s' x p assume a: "cell (dispatch_tensor st') (b', s', x, p) \<noteq> 0"
      show "x < E \<and> p < expert_capacity_used st' ! x"
      proof (cases "(b', s', x, p) = (b, s, e, ?u)")
        case True with e len show ?thesis by (simp add: us)
      next
        case False
        with a have "cell (dispatch_tensor st) (b', s', x, p) \<noteq> 0"
          unfolding cd by (metis fun_upd_other)
        from nz[OF this] e len show ?thesis by (cases "x = e") (simp_all add: us)
      qed
    qed
    have 3: "\<forall>b1 s1 b2 s2 x p. cell (dispatch_tensor st') (b1, s1, x, p) \<noteq> 0
                     \<and> cell (dispatch_tensor st') (b2, s2, x, p) \<noteq> 0 \<longrightarrow> b1 = b2 \<and> s1 = s2"
    proof (intro allI impI)
      fix b1 s1 b2 s2 x p
      assume a: "cell (dispatch_tensor st') (b1, s1, x, p) \<noteq> 0
                     \<and> cell (dispatch_tensor st') (b2, s2, x, p) \<noteq> 0"
      show "b1 = b2 \<and> s1 = s2"
      proof (cases "x = e \<and> p = ?u")
        case True
        have z1: "cell (dispatch_tensor st) (b1, s1, e, ?u) = 0" using nz[of b1 s1 e ?u] by auto
        have z2: "cell (dispatch_tensor st) (b2, s2, e, ?u) = 0" using nz[of b2 s2 e ?u] by auto
        have "(b1, s1, e, ?u) = (b, s, e, ?u)"
          using a True z1 unfolding cd by (metis fun_upd_other)
        moreover have "(b2, s2, e, ?u) = (b, s, e, ?u)"
          using a True z2 unfolding cd by (metis fun_upd_other)
        ultimately show ?thesis by simp
      next
        case False
        then have "(b1, s1, x, p) \<noteq> (b, s, e, ?u)" "(b2, s2, x, p) \<noteq> (b, s, e, ?u)" by auto
        with a have "cell (dispatch_tensor st) (b1, s1, x, p) \<noteq> 0" "cell (dispatch_tensor st) (b2, s2, x, p) \<noteq> 0"
          unfolding cd by (metis fun_upd_other)+
        then show ?thesis by (rule inj)
      qed
    qed
    have 4: "\<forall>ix. cell (dispatch_tensor st') ix = 0 \<longrightarrow> cell (combine_tensor st') ix = 0"
      using cz unfolding cd cc by (simp add: fun_upd_def)
    have 0: "length (expert_capacity_used st') = E" using len by (simp add: us)
    show ?thesis
      unfolding dispatch_inv_def prod.case using sh' 0 1 2 3 4 by blast
  qed
qed


lemma dispatch_loop_inv:
  "dispatch_loop ti tp cap todo st = Inr st' \<Longrightarrow> dispatch_inv (B, S, E, cap) st
     \<Longrightarrow> dispatch_inv (B, S, E, cap) st'"
proof (induction todo arbitrary: st)
  case Nil
  then show ?case by simp
next
  case (Cons bsk rest)
  from Cons.prems(1) obtain st1 where
    s1: "dispatch_step ti tp cap bsk st = Inr st1" and
    s2: "dispatch_loop ti tp cap rest st1 = Inr st'"
    by (auto split: sum.splits)
  from dispatch_step_inv[OF s1 Cons.prems(2)] s2 show ?case
    by (rule Cons.IH[rotated])
qed

lemma dispatch_inv_init:
  "dispatch_inv (B, S, E, cap)
     \<lparr>dispatch_tensor = \<lparr>shape4 = (B, S, E, cap), cell = (\<lambda>_. 0)\<rparr>,
      combine_tensor = \<lparr>shape4 = (B, S, E, cap), cell = (\<lambda>_. 0)\<rparr>,
      expert_capacity_used = replicate E 0\<rparr>"
  by (simp add: dispatch_inv_def)

lemma dispatched_to_le:
  assumes "dispatch_inv (B, S, E, cap) st" "e < E"
  shows "dispatched_to (dispatch_tensor st) e \<le> cap"
proof -
  let ?d = "dispatch_tensor st"
  let ?xs = "filter (\<lambda>(b, s, p). cell ?d (b, s, e, p) \<noteq> 0)
                  (List.product [0..<B] (List.product [0..<S] [0..<cap]))"
  from assms(1) have sh: "shape4 ?d = (B, S, E, cap)"
    and le: "expert_capacity_used st ! e \<le> cap"
    and nz: "\<And>b s p. cell ?d (b, s, e, p) \<noteq> 0 \<Longrightarrow> p < expert_capacity_used st ! e"
    using assms(2) unfolding dispatch_inv_def by auto
  from assms(1) have "\<forall>b s b' s' x p. cell ?d (b, s, x, p) \<noteq> 0
        \<and> cell ?d (b', s', x, p) \<noteq> 0 \<longrightarrow> b = b' \<and> s = s'"
    unfolding dispatch_inv_def by simp
  then have inj: "\<And>b s b' s' p. cell ?d (b, s, e, p) \<noteq> 0 \<Longrightarrow> cell ?d (b', s', e, p) \<noteq> 0 \<Longrightarrow> b = b' \<and> s = s'"
    by blast
  have dist: "distinct ?xs" by (simp add: distinct_product)
  have "inj_on (\<lambda>(b, s, p). p) (set ?xs)"
    by (rule inj_onI) (use inj in auto)
  moreover have "(\<lambda>(b, s, p). p) ` set ?xs \<subseteq> {..<expert_capacity_used st ! e}"
    using nz by auto
  ultimately have "card (set ?xs) \<le> card {..<expert_capacity_used st ! e}"
    by (metis card_inj_on_le finite_lessThan)
  then have "card (set ?xs) \<le> expert_capacity_used st ! e"
    by (simp only: card_lessThan)
  moreover have "card (set ?xs) = length ?xs"
    using dist by (rule distinct_card)
  ultimately have "length ?xs \<le> expert_capacity_used st ! e"
    by simp
  then show ?thesis using le by (simp add: dispatched_to_def sh)
qed


lemma dispatch_step_ok:
  assumes "topk_shape B S K E ti tp" "b < B" "s < S" "k < K"
    "dispatch_inv (B, S, E, cap) st"
  shows "\<exists>st'. dispatch_step ti tp cap (b, s, k) st = Inr st'"
proof -
  from assms(1-4) have i: "b < length ti" "s < length (ti ! b)" "k < length (ti ! b ! s)"
    "ti ! b ! s ! k < E"
    and p: "b < length tp" "s < length (tp ! b)" "k < length (tp ! b ! s)"
    by (auto simp: topk_shape_def list_all_length)
  from assms(5) have sh: "shape4 (dispatch_tensor st) = (B, S, E, cap)"
    "shape4 (combine_tensor st) = (B, S, E, cap)"
    and len: "length (expert_capacity_used st) = E"
    unfolding dispatch_inv_def by auto
  show ?thesis
    using i p sh len assms(2,3)
    by (simp add: dispatch_step_def ebind_def at_index_def set4_def)
qed

lemma set_loop_order:
  "set (loop_order B S K) \<subseteq> {(b, s, k). b < B \<and> s < S \<and> k < K}"
  by (auto simp: loop_order_def)

lemma dispatch_loop_ok:
  assumes "topk_shape B S K E ti tp"
  shows "set todo \<subseteq> {(b, s, k). b < B \<and> s < S \<and> k < K}
     \<Longrightarrow> dispatch_inv (B, S, E, cap) st
     \<Longrightarrow> \<exists>st'. dispatch_loop ti tp cap todo st = Inr st'"
proof (induction todo arbitrary: st)
  case Nil
  then show ?case by simp
next
  case (Cons bsk rest)
  obtain b s k where bsk: "bsk = (b, s, k)" by (cases bsk) auto
  with Cons.prems(1) have r: "b < B" "s < S" "k < K" by auto
  from dispatch_step_ok[OF assms r Cons.prems(2)] obtain st1 where
    s1: "dispatch_step ti tp cap bsk st = Inr st1" unfolding bsk by blast
  have "dispatch_inv (B, S, E, cap) st1"
    by (rule dispatch_step_inv[OF s1 Cons.prems(2)])
  moreover have "set rest \<subseteq> {(b, s, k). b < B \<and> s < S \<and> k < K}"
    using Cons.prems(1) by simp
  ultimately obtain st' where "dispatch_loop ti tp cap rest st1 = Inr st'"
    using Cons.IH by blast
  with s1 show ?case by simp
qed

lemma create_Inr:
  assumes "create_dispatch_combine_tensors r ti tp B S = Inr (d, c)"
  shows "\<exists>capacity st. compute_capacity r B S = Inr capacity \<and> 0 \<le> capacity \<and>
           dispatch_inv (B, S, num_experts r, nat capacity) st \<and>
           d = dispatch_tensor st \<and> c = combine_tensor st"
proof -
  from assms obtain capacity st where
    cap: "compute_capacity r B S = Inr capacity" and nn: "0 \<le> capacity" and
    lp: "dispatch_loop ti tp (nat capacity) (loop_order B S (top_k r))
           \<lparr>dispatch_tensor = \<lparr>shape4 = (B, S, num_experts r, nat capacity), cell = (\<lambda>_. 0)\<rparr>,
            combine_tensor = \<lparr>shape4 = (B, S, num_experts r, nat capacity), cell = (\<lambda>_. 0)\<rparr>,
            expert_capacity_used = replicate (num_experts r) 0\<rparr> = Inr st" and
    dc: "d = dispatch_tensor st" "c = combine_tensor st"
    unfolding create_dispatch_combine_tensors_def zeros4_def
    by (auto simp: ebind_Inr split: if_splits)
  from dispatch_loop_inv[OF lp dispatch_inv_init] cap nn dc show ?thesis by blast
qed

lemma create_ok:
  assumes "topk_shape B S (top_k r) (num_experts r) ti tp" "compute_capacity r B S = Inr capacity"
    "0 \<le> capacity"
  shows "\<exists>d c. create_dispatch_combine_tensors r ti tp B S = Inr (d, c)"
proof -
  from dispatch_loop_ok[OF assms(1) set_loop_order dispatch_inv_init, of "nat capacity"]
  obtain st where "dispatch_loop ti tp (nat capacity) (loop_order B S (top_k r))
           \<lparr>dispatch_tensor = \<lparr>shape4 = (B, S, num_experts r, nat capacity), cell = (\<lambda>_. 0)\<rparr>,
            combine_tensor = \<lparr>shape4 = (B, S, num_experts r, nat capacity), cell = (\<lambda>_. 0)\<rparr>,
            expert_capacity_used = replicate (num_experts r) 0\<rparr> = Inr st"
    by blast
  with assms(2,3) show ?thesis
    by (simp add: create_dispatch_combine_tensors_def zeros4_def ebind_def)
qed

lemma py_int_nonneg: "0 \<le> x \<Longrightarrow> 0 \<le> py_int x"
  by (simp add: py_int_def)

lemma compute_capacity_ok:
  assumes "0 < num_experts r" "0 \<le> capacity_factor r"
  shows "\<exists>capacity. compute_capacity r B S = Inr capacity \<and> 0 \<le> capacity"
  using assms by (simp add: compute_capacity_def py_int_nonneg)

lemma dispatch_step_full:
  assumes "at_index ti b = Inr ib" "at_index ib s = Inr ibs" "at_index ibs k = Inr e"
    "at_index tp b = Inr pb" "at_index pb s = Inr pbs" "at_index pbs k = Inr q"
    "at_index (expert_capacity_used st) e = Inr used" "cap \<le> used"
  shows "dispatch_step ti tp cap (b, s, k) st = Inr st"
  using assms by (simp add: dispatch_step_def ebind_def)

text \<open>
  C3. Whenever \<open>_create_dispatch_combine_tensors\<close> returns, every expert holds at
  most the computed capacity of dispatched tokens, and combine weights are zero
  wherever dispatch is zero. On the output of a top-k selection the call does
  return, and an assignment that meets a full expert leaves the loop state as it
  was: it is dropped, not raised. For a non-negative capacity factor the
  capacity is \<open>floor(batch * seq_len * capacity_factor * top_k / num_experts)\<close>.
\<close>

theorem dispatch_never_exceeds_capacity:
  "(create_dispatch_combine_tensors r ti tp B S = Inr (d, c) \<longrightarrow>
      (\<exists>capacity. compute_capacity r B S = Inr capacity \<and>
         (\<forall>e<num_experts r. int (dispatched_to d e) \<le> capacity) \<and>
         (\<forall>ix. cell d ix = 0 \<longrightarrow> cell c ix = 0))) \<and>
   (topk_shape B S (top_k r) (num_experts r) ti tp \<and> 0 < num_experts r \<and>
    0 \<le> capacity_factor r \<longrightarrow>
      (\<exists>d' c'. create_dispatch_combine_tensors r ti tp B S = Inr (d', c'))) \<and>
   (topk_shape B S K E ti tp \<and> b < B \<and> s < S \<and> k < K \<and>
    length (expert_capacity_used st) = E \<and>
    capacity \<le> expert_capacity_used st ! (ti ! b ! s ! k) \<longrightarrow>
      dispatch_step ti tp capacity (b, s, k) st = Inr st) \<and>
   (0 < num_experts r \<and> 0 \<le> capacity_factor r \<longrightarrow>
      compute_capacity r B S
        = Inr \<lfloor>real (B * S) * capacity_factor r * real (top_k r) / real (num_experts r)\<rfloor>)"
proof (intro conjI impI)
  assume a: "create_dispatch_combine_tensors r ti tp B S = Inr (d, c)"
  from create_Inr[OF a] obtain cap st where
    cap: "compute_capacity r B S = Inr cap" and nn: "0 \<le> cap" and
    inv: "dispatch_inv (B, S, num_experts r, nat cap) st" and
    dc: "d = dispatch_tensor st" "c = combine_tensor st"
    by blast
  have "\<forall>e<num_experts r. int (dispatched_to d e) \<le> cap"
  proof (intro allI impI)
    fix e assume "e < num_experts r"
    from dispatched_to_le[OF inv this] nn show "int (dispatched_to d e) \<le> cap"
      unfolding dc by linarith
  qed
  moreover have "\<forall>ix. cell d ix = 0 \<longrightarrow> cell c ix = 0"
    using inv unfolding dc dispatch_inv_def by simp
  ultimately show "\<exists>capacity. compute_capacity r B S = Inr capacity \<and>
         (\<forall>e<num_experts r. int (dispatched_to d e) \<le> capacity) \<and>
         (\<forall>ix. cell d ix = 0 \<longrightarrow> cell c ix = 0)"
    using cap by blast
next
  assume a: "topk_shape B S (top_k r) (num_experts r) ti tp \<and> 0 < num_experts r \<and>
    0 \<le> capacity_factor r"
  then obtain cap where "compute_capacity r B S = Inr cap" "0 \<le> cap"
    using compute_capacity_ok by blast
  with a show "\<exists>d' c'. create_dispatch_combine_tensors r ti tp B S = Inr (d', c')"
    using create_ok by blast
next
  assume a: "topk_shape B S K E ti tp \<and> b < B \<and> s < S \<and> k < K \<and>
    length (expert_capacity_used st) = E \<and>
    capacity \<le> expert_capacity_used st ! (ti ! b ! s ! k)"
  then have i: "b < length ti" "s < length (ti ! b)" "k < length (ti ! b ! s)"
    "ti ! b ! s ! k < E"
    and p: "b < length tp" "s < length (tp ! b)" "k < length (tp ! b ! s)"
    by (auto simp: topk_shape_def list_all_length)
  show "dispatch_step ti tp capacity (b, s, k) st = Inr st"
    using i p a by (simp add: dispatch_step_def ebind_def at_index_def)
next
  assume "0 < num_experts r \<and> 0 \<le> capacity_factor r"
  then show "compute_capacity r B S
        = Inr \<lfloor>real (B * S) * capacity_factor r * real (top_k r) / real (num_experts r)\<rfloor>"
    by (simp add: compute_capacity_def py_int_def)
qed

theorem dispatch_never_exceeds_capacity_witness:
  "\<exists>d c. create_dispatch_combine_tensors demo_router [[[0], [0]]] [[[1], [1]]] 1 2 = Inr (d, c)
     \<and> compute_capacity demo_router 1 2 = Inr 1
     \<and> int (dispatched_to d 0) \<le> 1
     \<and> dispatch_step [[[0], [0]]] [[[1], [1]]] 1 (0, 1, 0)
          \<lparr>dispatch_tensor = d, combine_tensor = c, expert_capacity_used = [1]\<rparr>
        = Inr \<lparr>dispatch_tensor = d, combine_tensor = c, expert_capacity_used = [1]\<rparr>"
proof -
  let ?ti = "[[[0], [0::nat]]]" and ?tp = "[[[1], [1::real]]]"
  have wf: "topk_shape 1 2 (top_k demo_router) (num_experts demo_router) ?ti ?tp
      \<and> 0 < num_experts demo_router \<and> 0 \<le> capacity_factor demo_router"
    by (simp add: topk_shape_def demo_router_def new_base_router_def)
  have cap: "compute_capacity demo_router 1 2 = Inr 1"
    by (simp add: compute_capacity_def demo_router_def new_base_router_def py_int_def)
  from wf dispatch_never_exceeds_capacity[of demo_router ?ti ?tp 1 2]
  obtain d c where dc: "create_dispatch_combine_tensors demo_router ?ti ?tp 1 2 = Inr (d, c)"
    by blast
  from dc cap dispatch_never_exceeds_capacity[of demo_router ?ti ?tp 1 2 d c]
  have le: "int (dispatched_to d 0) \<le> 1"
    by (auto simp: demo_router_def new_base_router_def)
  have wf2: "topk_shape 1 2 1 1 ?ti ?tp"
    by (simp add: topk_shape_def)
  have "dispatch_step ?ti ?tp 1 (0, 1, 0)
          \<lparr>dispatch_tensor = d, combine_tensor = c, expert_capacity_used = [1]\<rparr>
        = Inr \<lparr>dispatch_tensor = d, combine_tensor = c, expert_capacity_used = [1]\<rparr>"
    using wf2 dispatch_never_exceeds_capacity[where r = demo_router and d = d and c = c
        and ti = ?ti and tp = ?tp and B = 1 and S = 2
        and K = 1 and E = 1 and b = 0 and s = 1 and k = 0 and capacity = 1
        and st = "\<lparr>dispatch_tensor = d, combine_tensor = c, expert_capacity_used = [1]\<rparr>"]
    by simp
  with dc cap le show ?thesis by blast
qed

text \<open>
  C10. When \<open>batch * seq_len * capacity_factor * top_k / num_experts\<close> is below 1
  (for a non-negative capacity factor) the capacity is 0, the tensors are
  created with zero width along the capacity axis, and every dispatch and
  combine cell is zero: every assignment is dropped and nothing is raised.
\<close>

theorem zero_capacity_drops_everything:
  assumes "0 < num_experts r" "0 \<le> capacity_factor r"
    "real (B * S) * capacity_factor r * real (top_k r) / real (num_experts r) < 1"
    "topk_shape B S (top_k r) (num_experts r) ti tp"
  shows "compute_capacity r B S = Inr 0 \<and>
         (\<exists>d c. create_dispatch_combine_tensors r ti tp B S = Inr (d, c) \<and>
            shape4 d = (B, S, num_experts r, 0) \<and> shape4 c = (B, S, num_experts r, 0) \<and>
            (\<forall>ix. cell d ix = 0 \<and> cell c ix = 0))"
proof -
  let ?x = "real (B * S) * capacity_factor r * real (top_k r) / real (num_experts r)"
  have "0 \<le> ?x" using assms(1,2) by simp
  with assms(3) have "py_int ?x = 0" by (simp add: py_int_def floor_eq_iff)
  with assms(1) have cap: "compute_capacity r B S = Inr 0"
    by (simp add: compute_capacity_def)
  from create_ok[OF assms(4) cap] obtain d c where
    dc: "create_dispatch_combine_tensors r ti tp B S = Inr (d, c)" by auto
  from create_Inr[OF dc] cap obtain st where
    inv: "dispatch_inv (B, S, num_experts r, 0) st" and
    eq: "d = dispatch_tensor st" "c = combine_tensor st"
    by auto
  from inv have sh: "shape4 d = (B, S, num_experts r, 0)" "shape4 c = (B, S, num_experts r, 0)"
    unfolding eq dispatch_inv_def by auto
  from inv have le: "\<forall>e<num_experts r. expert_capacity_used st ! e \<le> 0"
    unfolding dispatch_inv_def by simp
  from inv have nz: "\<forall>b s e p. cell d (b, s, e, p) \<noteq> 0
                     \<longrightarrow> e < num_experts r \<and> p < expert_capacity_used st ! e"
    unfolding eq dispatch_inv_def prod.case by blast
  from inv have cz: "\<forall>ix. cell d ix = 0 \<longrightarrow> cell c ix = 0"
    unfolding eq dispatch_inv_def prod.case by blast
  have "cell d ix = 0" for ix
  proof -
    obtain b s e p where ix: "ix = (b, s, e, p)" by (cases ix) auto
    show ?thesis
    proof (rule ccontr)
      assume "cell d ix \<noteq> 0"
      with nz ix have "e < num_experts r" "p < expert_capacity_used st ! e" by auto
      with le show False by auto
    qed
  qed
  with cz have "\<forall>ix. cell d ix = 0 \<and> cell c ix = 0" by simp
  with cap dc sh show ?thesis by blast
qed

theorem zero_capacity_drops_everything_witness:
  "compute_capacity (new_base_router 1 8 2 (3 / 2) 0 zero_rng) 1 1 = Inr 0 \<and>
   (\<exists>d c. create_dispatch_combine_tensors (new_base_router 1 8 2 (3 / 2) 0 zero_rng)
              [[[0, 1]]] [[[1 / 2, 1 / 2]]] 1 1 = Inr (d, c) \<and>
            shape4 d = (1, 1, 8, 0) \<and> shape4 c = (1, 1, 8, 0) \<and>
            (\<forall>ix. cell d ix = 0 \<and> cell c ix = 0))"
  using zero_capacity_drops_everything[of "new_base_router 1 8 2 (3 / 2) 0 zero_rng"
      1 1 "[[[0, 1]]]" "[[[1 / 2, 1 / 2]]]"]
  by (simp add: new_base_router_def topk_shape_def)

subsection \<open>The base router on a zero input\<close>

lemma emap_const:
  "(\<And>x. x \<in> set xs \<Longrightarrow> f x = Inr y) \<Longrightarrow> emap f xs = Inr (replicate (length xs) y)"
  by (induction xs) auto

lemma emap_map:
  "(\<And>x. x \<in> set xs \<Longrightarrow> f x = Inr (h x)) \<Longrightarrow> emap f xs = Inr (map h xs)"
  by (induction xs) auto

lemma dot_zeros: "dot row (replicate n 0) = 0"
proof -
  have "sum_list (map2 (*) row (replicate n (0::real))) = 0"
  proof (induction row arbitrary: n)
    case Nil
    then show ?case by simp
  next
    case (Cons x row)
    then show ?case by (cases n) simp_all
  qed
  then show ?thesis by (simp add: dot_def)
qed

lemma init_linear_zeros:
  "apply_layer t k (init_linear n m rnd) (replicate n 0) = Inr (replicate m 0)"
proof -
  have "map2 (\<lambda>row bi. dot row (replicate n 0) + bi)
          (map (\<lambda>i. map (rnd i) [0..<n]) [0..<m]) (replicate m 0) = replicate m 0"
    by (rule nth_equalityI) (simp_all add: dot_zeros)
  then show ?thesis
    by (simp add: init_linear_def list_all_iff)
qed

lemma relu_zeros: "apply_layer t k ReLU (replicate n 0) = Inr (replicate n 0)"
  by simp

lemma dropout_zeros: "apply_layer t k (Dropout p) (replicate n 0) = Inr (replicate n 0)"
proof -
  have "map (\<lambda>(j, v). if k j then v / (1 - p) else 0) (zip [0..<n] (replicate n (0::real)))
        = replicate n 0"
    by (rule nth_equalityI) simp_all
  then show ?thesis by simp
qed

lemma base_network_zeros:
  "apply_seq t k (router (new_base_router hsz ne kk cf dr g)) (replicate hsz 0)
     = Inr (replicate ne 0)"
  by (simp add: new_base_router_def init_linear_zeros dropout_zeros relu_zeros
        del: apply_layer.simps)

lemma softmax_zeros: "0 < n \<Longrightarrow> softmax (replicate n 0) = replicate n (1 / real n)"
  by (simp add: softmax_def sum_list_replicate)

lemma apply_tokens_const:
  assumes "\<And>b s. apply_seq t (keep b s) net x = Inr y"
  shows "apply_tokens t keep net (replicate B (replicate S x)) = Inr (replicate B (replicate S y))"
proof -
  have inner: "emap (\<lambda>(s, x). apply_seq t (keep b s) net x) (zip [0..<S] (replicate S x))
      = Inr (replicate S y)" for b
  proof -
    have "emap (\<lambda>(s, x). apply_seq t (keep b s) net x) (zip [0..<S] (replicate S x))
      = Inr (replicate (length (zip [0..<S] (replicate S x))) y)"
      by (rule emap_const) (use assms in \<open>auto dest: set_zip_rightD\<close>)
    then show ?thesis by simp
  qed
  have "emap (\<lambda>(b, row). emap (\<lambda>(s, x). apply_seq t (keep b s) net x)
                           (zip [0..<length row] row))
          (zip [0..<B] (replicate B (replicate S x)))
        = Inr (replicate (length (zip [0..<B] (replicate B (replicate S x)))) (replicate S y))"
    by (rule emap_const) (use inner in \<open>auto dest!: set_zip_rightD\<close>)
  then show ?thesis by (simp add: apply_tokens_def)
qed

lemma topk_uniform4:
  "topk 2 (replicate 4 (1 / 4)) = Inr ([1 / 4, 1 / 4], [0, 1])"
  by (simp add: topk_def numeral_eq_Suc upt_rec)


lemma topk_tokens_const:
  assumes "topk k x = Inr (vs, is)"
  shows "topk_tokens k (replicate B (replicate S x))
           = Inr (replicate B (replicate S vs), replicate B (replicate S is))"
proof -
  have "emap (topk k) (replicate S x) = Inr (replicate (length (replicate S x)) (vs, is))"
    by (rule emap_const) (use assms in auto)
  then have inner: "emap (topk k) (replicate S x) = Inr (replicate S (vs, is))" by simp
  have "emap (emap (topk k)) (replicate B (replicate S x))
          = Inr (replicate (length (replicate B (replicate S x))) (replicate S (vs, is)))"
    by (rule emap_const) (use inner in auto)
  then show ?thesis by (simp add: topk_tokens_def ebind_def)
qed

text \<open>
  C7. A freshly constructed base router with hidden size 8, 4 experts and
  \<open>top_k = 2\<close>, whatever its drawn weights, dropout rate and dropout mask,
  maps the all-zero \<open>[1, 10, 8]\<close> input to router probabilities 1/4 for every
  token and expert, because its biases are zero; with capacity factor 1.5 the
  capacity for 10 tokens is 7.
\<close>

theorem zero_input_uniform_probs:
  "\<exists>d c aux r'.
     base_forward (new_base_router 8 4 2 (3 / 2) dr g) [replicate 10 (replicate 8 0)] None keep
       = (Inr (d, c, [replicate 10 (replicate 4 (1 / 4))], aux), r') \<and>
     compute_capacity (new_base_router 8 4 2 (3 / 2) dr g) 1 10 = Inr 7"
proof -
  let ?r = "new_base_router 8 4 2 (3 / 2) dr g"
  let ?hs = "[replicate 10 (replicate 8 (0::real))]"
  have logits: "apply_tokens (training ?r) keep (router ?r) ?hs
                  = Inr [replicate 10 (replicate 4 0)]"
    using apply_tokens_const[of "training ?r" keep "router ?r" "replicate 8 0" "replicate 4 0" 1 10]
      base_network_zeros[of _ _ 8 4 2 "3 / 2" dr g]
    by simp
  have probs: "map (map softmax) (apply_expert_mask None [replicate 10 (replicate 4 0)])
                 = [replicate 10 (replicate 4 (1 / 4))]"
    using softmax_zeros[of 4] by (simp add: apply_expert_mask_def)
  have k: "top_k ?r = 2" "num_experts ?r = 4" by (simp_all add: new_base_router_def)
  have tk: "topk_tokens 2 [replicate 10 (replicate 4 (1 / 4))]
              = Inr ([replicate 10 [1 / 4, 1 / 4]], [replicate 10 [0, 1]])"
    using topk_tokens_const[OF topk_uniform4, of 1 10] by simp
  have cap: "compute_capacity ?r 1 10 = Inr 7"
    by (simp add: compute_capacity_def new_base_router_def py_int_def)
  have "topk_shape 1 10 (top_k ?r) (num_experts ?r) [replicate 10 [0, 1]]
          (renormalize [replicate 10 [1 / 4, 1 / 4]])"
    by (simp add: topk_shape_def renormalize_def k list_all_iff)
  from create_ok[OF this cap] obtain d c where
    dc: "create_dispatch_combine_tensors ?r [replicate 10 [0, 1]]
           (renormalize [replicate 10 [1 / 4, 1 / 4]]) 1 10 = Inr (d, c)"
    by auto
  have bs: "batch_size_of ?hs = 1" "seq_len_of ?hs = 10"
    by (simp_all add: batch_size_of_def seq_len_of_def)
  have "fst (base_forward ?r ?hs None keep)
          = Inr (d, c, [replicate 10 (replicate 4 (1 / 4))],
                 compute_load_balancing_loss ?r [replicate 10 (replicate 4 (1 / 4))]
                   [replicate 10 [0, 1]])"
    by (simp only: base_forward_def Let_def logits probs k tk bs dc sum.case prod.case
          fst_conv)
  then show ?thesis using cap by (metis prod.collapse)
qed

subsection \<open>The gini balance loss\<close>

lemma mean_per_expert_single:
  "mean_per_expert 4 [[[a, b, c, d]]] = [a, b, c, d]"
  by (simp add: mean_per_expert_def mean_def numeral_eq_Suc upt_rec)

text \<open>
  C2 (the code departs from the claim). In gini mode the advanced balance loss
  of four experts with identical mean probability 1/4 is 1/4, not 0: the
  source subtracts 1 where the Gini coefficient subtracts \<open>(n + 1) / n\<close>. With
  all mass on one expert the loss is 1.
\<close>

theorem gini_uniform_is_quarter:
  "compute_advanced_balance_loss gini_router [[[1 / 4, 1 / 4, 1 / 4, 1 / 4]]] = Inr (1 / 4) \<and>
   compute_advanced_balance_loss gini_router [[[0, 0, 0, 1]]] = Inr 1"
proof -
  have ne: "num_experts gini_router = 4" "balance_mode gini_router = ''gini''"
    by (simp_all add: gini_router_def new_topk_balanced_router_def)
  have idx: "map real [1..<4 + 1] = [1, 2, 3, 4]"
    by (simp add: upt_rec)
  have "gini_loss 4 [1 / 4, 1 / 4, 1 / 4, 1 / 4] = 1 / 4"
    unfolding gini_loss_def Let_def idx by simp
  moreover have "gini_loss 4 [0, 0, 0, 1] = 1"
    unfolding gini_loss_def Let_def idx by simp
  ultimately show ?thesis
    by (simp add: compute_advanced_balance_loss_def ne mean_per_expert_single)
qed

subsection \<open>The window strategies\<close>

lemma py_int_of_int: "py_int (real_of_int z) = z"
  by (simp add: py_int_def)

lemma aggressive_unfold:
  "apply_expert_compression ratio keys vals ''aggressive'' router_probs
     = Inr (keep_windows (2 / 10) (1 / 10) keys vals)"
  by (simp only: apply_expert_compression_def simp_thms if_True)

lemma keep_windows_100:
  assumes "shape4 t = (n0, n1, 100, n3)"
  shows "shape4 (cat_seq (slice_front 20 t) (slice_back 10 t)) = (n0, n1, 30, n3)"
    and "s < 20 \<Longrightarrow> cell (cat_seq (slice_front 20 t) (slice_back 10 t)) (b, h, s, d)
           = cell t (b, h, s, d)"
    and "20 \<le> s \<Longrightarrow> cell (cat_seq (slice_front 20 t) (slice_back 10 t)) (b, h, s, d)
           = cell t (b, h, s + 70, d)"
  using assms
  by (simp_all add: cat_seq_def slice_front_def slice_back_def seq_dim_def add.commute)

text \<open>
  C6. For keys and values of sequence length 100 the aggressive strategy
  returns sequence length 30: positions 0 to 19 followed by positions 90 to
  99, the other axes unchanged. When the sequence is shorter than the two
  windows together, keys and values come back unchanged.
\<close>

theorem aggressive_keeps_front_and_back:
  "(shape4 keys = (bn, hn, 100, dn) \<and> shape4 vals = (bm, hm, 100, dm) \<longrightarrow>
      (\<exists>keys' vals'.
         apply_expert_compression ratio keys vals ''aggressive'' router_probs
           = Inr (keys', vals') \<and>
         shape4 keys' = (bn, hn, 30, dn) \<and> shape4 vals' = (bm, hm, 30, dm) \<and>
         (\<forall>b h s d. s < 20 \<longrightarrow>
            cell keys' (b, h, s, d) = cell keys (b, h, s, d) \<and>
            cell vals' (b, h, s, d) = cell vals (b, h, s, d)) \<and>
         (\<forall>b h s d. 20 \<le> s \<and> s < 30 \<longrightarrow>
            cell keys' (b, h, s, d) = cell keys (b, h, s + 70, d) \<and>
            cell vals' (b, h, s, d) = cell vals (b, h, s + 70, d)))) \<and>
   (int (seq_dim keys) < max 1 (py_int (real (seq_dim keys) * (2 / 10)))
                          + max 1 (py_int (real (seq_dim keys) * (1 / 10))) \<longrightarrow>
      apply_expert_compression ratio keys vals ''aggressive'' router_probs = Inr (keys, vals))"
proof (intro conjI impI)
  assume a: "shape4 keys = (bn, hn, 100, dn) \<and> shape4 vals = (bm, hm, 100, dm)"
  have f: "py_int (real 100 * (2 / 10)) = 20" "py_int (real 100 * (1 / 10)) = 10"
    using py_int_of_int[of 20] py_int_of_int[of 10] by simp_all
  have kw: "keep_windows (2 / 10) (1 / 10) keys vals
          = (cat_seq (slice_front 20 keys) (slice_back 10 keys),
             cat_seq (slice_front 20 vals) (slice_back 10 vals))"
    using a f by (simp add: keep_windows_def seq_dim_def Let_def)
  show "\<exists>keys' vals'.
         apply_expert_compression ratio keys vals ''aggressive'' router_probs
           = Inr (keys', vals') \<and>
         shape4 keys' = (bn, hn, 30, dn) \<and> shape4 vals' = (bm, hm, 30, dm) \<and>
         (\<forall>b h s d. s < 20 \<longrightarrow>
            cell keys' (b, h, s, d) = cell keys (b, h, s, d) \<and>
            cell vals' (b, h, s, d) = cell vals (b, h, s, d)) \<and>
         (\<forall>b h s d. 20 \<le> s \<and> s < 30 \<longrightarrow>
            cell keys' (b, h, s, d) = cell keys (b, h, s + 70, d) \<and>
            cell vals' (b, h, s, d) = cell vals (b, h, s + 70, d))"
    unfolding aggressive_unfold kw
    using a keep_windows_100[of keys bn hn dn] keep_windows_100[of vals bm hm dm]
    by (intro exI[of _ "cat_seq (slice_front 20 keys) (slice_back 10 keys)"]
              exI[of _ "cat_seq (slice_front 20 vals) (slice_back 10 vals)"]) simp
next
  assume "int (seq_dim keys) < max 1 (py_int (real (seq_dim keys) * (2 / 10)))
                          + max 1 (py_int (real (seq_dim keys) * (1 / 10)))"
  then have "\<not> seq_dim keys > nat (max 1 (py_int (real (seq_dim keys) * (2 / 10))))
                          + nat (max 1 (py_int (real (seq_dim keys) * (1 / 10))))"
    by linarith
  then show "apply_expert_compression ratio keys vals ''aggressive'' router_probs
               = Inr (keys, vals)"
    unfolding aggressive_unfold by (simp add: keep_windows_def Let_def)
qed


theorem aggressive_keeps_front_and_back_witness:
  "(\<exists>keys' vals'.
      apply_expert_compression 0 (pos_tensor 100) (pos_tensor 100) ''aggressive'' []
        = Inr (keys', vals') \<and>
      shape4 keys' = (1, 1, 30, 1) \<and> cell keys' (0, 0, 19, 0) = 19 \<and>
      cell keys' (0, 0, 20, 0) = 90 \<and> cell vals' (0, 0, 29, 0) = 99) \<and>
   apply_expert_compression 0 (pos_tensor 1) (pos_tensor 1) ''aggressive'' []
     = Inr (pos_tensor 1, pos_tensor 1)"
proof -
  have sh: "shape4 (pos_tensor 100) = (1, 1, 100, 1) \<and> shape4 (pos_tensor 100) = (1, 1, 100, 1)"
    by (simp add: pos_tensor_def)
  from sh aggressive_keeps_front_and_back[where keys = "pos_tensor 100" and vals = "pos_tensor 100"
      and ratio = 0 and router_probs = "[]" and bn = 1 and hn = 1 and dn = 1
      and bm = 1 and hm = 1 and dm = 1]
  obtain keys' vals' where
    r: "apply_expert_compression 0 (pos_tensor 100) (pos_tensor 100) ''aggressive'' []
          = Inr (keys', vals')" "shape4 keys' = (1, 1, 30, 1)"
    and fr: "\<forall>b h s d. s < 20 \<longrightarrow>
            cell keys' (b, h, s, d) = cell (pos_tensor 100) (b, h, s, d) \<and>
            cell vals' (b, h, s, d) = cell (pos_tensor 100) (b, h, s, d)"
    and bk: "\<forall>b h s d. 20 \<le> s \<and> s < 30 \<longrightarrow>
            cell keys' (b, h, s, d) = cell (pos_tensor 100) (b, h, s + 70, d) \<and>
            cell vals' (b, h, s, d) = cell (pos_tensor 100) (b, h, s + 70, d)"
    by blast
  have 1: "cell keys' (0, 0, 19, 0) = 19" using fr by (simp add: pos_tensor_def)
  have 2: "cell keys' (0, 0, 20, 0) = 90" using bk by (simp add: pos_tensor_def)
  have 3: "cell vals' (0, 0, 29, 0) = 99" using bk by (simp add: pos_tensor_def)
  have short: "int (seq_dim (pos_tensor 1))
      < max 1 (py_int (real (seq_dim (pos_tensor 1)) * (2 / 10)))
        + max 1 (py_int (real (seq_dim (pos_tensor 1)) * (1 / 10)))"
    by (simp add: pos_tensor_def seq_dim_def py_int_def)
  from short aggressive_keeps_front_and_back[where keys = "pos_tensor 1" and vals = "pos_tensor 1"
      and ratio = 0 and router_probs = "[]"]
  have "apply_expert_compression 0 (pos_tensor 1) (pos_tensor 1) ''aggressive'' []
     = Inr (pos_tensor 1, pos_tensor 1)"
    by blast
  with r 1 2 3 show ?thesis by blast
qed

subsection \<open>The selective strategy\<close>


















subsection \<open>One call of compress on the default press\<close>

lemma u2: "[0..<2] = [0, 1]" and u4: "[0..<4] = [0, 1, 2, 3]" and u5: "[0..<5] = [0, 1, 2, 3, 4]"
  by (simp_all add: upt_rec)

lemma rep4: "replicate 4 x = [x, x, x, x]"
  by (simp add: numeral_eq_Suc)

lemma first_router_fields:
  "training first_router = True" "cache_aware first_router = True"
  "top_k first_router = 2" "num_experts first_router = 4"
  "capacity_factor first_router = 3 / 2" "cache_update_counter first_router = 0"
  "expert_usage_count first_router = [0, 0, 0, 0]" "total_tokens first_router = 0"
  by (simp_all add: first_router_def new_pikv_router_def rep4)

lemma first_get_router:
  "get_router default_press 0 1 zero_rng
     = Inr (PiKVR first_router,
            default_press\<lparr>routers := [(0, PiKVR first_router)],
              expert_compression_stats :=
                [(0, \<lparr>expert_usage = replicate 4 0, compression_ratios = replicate 4 0,
                       stat_cache_hit_rates = replicate 4 0\<rparr>)]\<rparr>)"
  by (simp add: get_router_def default_press_def post_init_def construct_router_def ebind_def
      first_router_def)

lemma first_importance: "compute_importance first_router [[[0]]] keep_all = Inr [[1 / 2]]"
  by (simp add: compute_importance_def first_router_def new_pikv_router_def apply_tokens_def
      keep_all_def ebind_def default_linear_def zero_rng_def dot_def)

lemma first_top_k: "adapt_top_k first_router [[[0]]] [[1 / 2]] = Inr 1"
  by (simp add: adapt_top_k_def first_router_def new_pikv_router_def ebind_def mean_features_def
      mean_def default_linear_def zero_rng_def dot_def softmax_def argmax_def u2)

lemma first_adjustment:
  "compute_cache_aware_adjustment first_router [[[0]]] [[[0, 0, 0, 0]]] = Inr [[[0, 0, 0, 0]]]"
  by (simp add: compute_cache_aware_adjustment_def first_router_def new_pikv_router_def ebind_def
      mean_features_def mean_def default_linear_def zero_rng_def dot_def u4 u5)

lemma first_logits:
  "apply_tokens True keep_all (router first_router) [[[0]]] = Inr [[[0, 0, 0, 0]]]"
  by (simp add: first_router_def new_pikv_router_def apply_tokens_def keep_all_def
      init_linear_def zero_rng_def dot_def u4 rep4)

lemma softmax4: "softmax [0, 0, 0, 0] = [1 / 4, 1 / 4, 1 / 4, 1 / 4]"
  by (simp add: softmax_def)

lemma first_topk: "topk_tokens 1 [[[1 / 4, 1 / 4, 1 / 4, 1 / 4]]] = Inr ([[[1 / 4]]], [[[0]]])"
  by (simp add: topk_tokens_def topk_def ebind_def u4)

lemma first_dispatch:
  "\<exists>d c. create_dispatch_combine_tensors (first_router\<lparr>top_k := 1\<rparr>) [[[0]]]
            (renormalize [[[1 / 4]]]) 1 1 = Inr (d, c)"
proof -
  have "topk_shape 1 1 (top_k (first_router\<lparr>top_k := 1\<rparr>))
          (num_experts (first_router\<lparr>top_k := 1\<rparr>)) [[[0]]] (renormalize [[[1 / 4]]])"
    by (simp add: topk_shape_def renormalize_def first_router_fields)
  moreover have "compute_capacity (first_router\<lparr>top_k := 1\<rparr>) 1 1 = Inr 0"
    by (simp add: compute_capacity_def first_router_fields py_int_def)
  ultimately show ?thesis using create_ok by blast
qed

lemma first_forward:
  "\<exists>d c aux.
     pikv_forward first_router [[[0]]] None keep_all keep_all
       = (Inr (d, c, [[[1 / 4, 1 / 4, 1 / 4, 1 / 4]]], aux, [[1 / 2]]),
          update_usage_count 1 1 [[[0]]] (first_router\<lparr>top_k := 2\<rparr>))"
proof -
  from first_dispatch obtain d c where
    dc: "create_dispatch_combine_tensors (first_router\<lparr>top_k := 1\<rparr>) [[[0]]]
            (renormalize [[[1 / 4]]]) 1 1 = Inr (d, c)" by blast
  have bs: "batch_size_of [[[0::real]]] = 1" "seq_len_of [[[0::real]]] = 1"
    by (simp_all add: batch_size_of_def seq_len_of_def)
  have add: "add3 [[[0, 0, 0, 0]]] [[[0, 0, 0, 0]]] = Inr [[[0, 0, 0, 0]]]"
    by (simp add: add3_def)
  have sm: "map (map softmax) (apply_expert_mask None [[[0, 0, 0, 0]]])
              = [[[1 / 4, 1 / 4, 1 / 4, 1 / 4]]]"
    by (simp add: apply_expert_mask_def softmax4)
  show ?thesis
    unfolding pikv_forward_def Let_def bs first_router_fields first_logits
    by (simp only: ebind_def sum.case if_True first_adjustment add sm first_importance
          first_top_k first_topk prod.case dc) simp
qed


lemma argmax_uniform4: "argmax [1 / 4, 1 / 4, 1 / 4, 1 / 4] = Inr 0"
  by (simp add: argmax_def u4)

lemma first_call_result:
  "\<exists>kv rate.
     fst first_call = Inr kv \<and>
     routers (snd first_call)
       = [(0, PiKVR (update_cache_usage 0 rate
                      (update_usage_count 1 1 [[[0]]] (first_router\<lparr>top_k := 2\<rparr>))))]"
proof -
  from first_forward obtain d c aux where
    fw: "pikv_forward first_router [[[0]]] None keep_all keep_all
       = (Inr (d, c, [[[1 / 4, 1 / 4, 1 / 4, 1 / 4]]], aux, [[1 / 2]]),
          update_usage_count 1 1 [[[0]]] (first_router\<lparr>top_k := 2\<rparr>))" by blast
  let ?R = "update_usage_count 1 1 [[[0]]] (first_router\<lparr>top_k := 2\<rparr>)"
  have cr: "call_router (PiKVR first_router) [[[0]]] keep_all keep_all
              = (Inr ([[[1 / 4, 1 / 4, 1 / 4, 1 / 4]]], aux), PiKVR ?R)"
    by (simp add: call_router_def fw)
  have hd: "hidden_dim_of [[[0::real]]] = 1" by (simp add: hidden_dim_of_def)
  have ne: "any_num_experts (PiKVR (update_usage_count a b i (first_router\<lparr>top_k := 2\<rparr>))) = 4"
    for a b i
    by (simp add: any_num_experts_def update_usage_count_def first_router_fields)
  have st: "map_of (expert_strategies default_press) 0 = Some ''aggressive''"
    by (simp add: default_press_def post_init_def)
  have sd: "seq_dim (pos_tensor 4) = 4" by (simp add: pos_tensor_def seq_dim_def)
  show ?thesis
    unfolding first_call_def compress_def hd first_get_router
    by (simp add: cr ne mean_per_expert_single argmax_uniform4 st aggressive_unfold sd
        map_entry_def Let_def split: prod.splits) blast
qed

text \<open>
  C1, as stated, fails. After one call of \<open>compress\<close> on the default press
  (which returns) and a following \<open>reset_stats\<close>, the cache-usage history of
  the layer's router still holds its entry: the histories are not emptied.
\<close>

theorem reset_keeps_histories_counterexample:
  "isl (fst first_call) = False \<and>
   \<not> list_all histories_empty (map snd (routers (reset_stats (snd first_call))))"
proof -
  from first_call_result obtain kv rate where
    r: "fst first_call = Inr kv"
    "routers (snd first_call)
       = [(0, PiKVR (update_cache_usage 0 rate
                      (update_usage_count 1 1 [[[0]]] (first_router\<lparr>top_k := 2\<rparr>))))]"
    by blast
  have "cache_update_counter (update_cache_usage 0 rate
          (update_usage_count 1 1 [[[0]]] (first_router\<lparr>top_k := 2\<rparr>))) = 1"
    by (simp add: update_cache_usage_def update_usage_count_def first_router_fields Let_def)
  then show ?thesis
    using r by (simp add: reset_stats_def any_reset_stats_def router_reset_stats_def
        histories_empty_def any_histories_def)
qed

subsection \<open>Resetting the statistics\<close>

lemma emap_Inr_list_all2:
  "emap f xs = Inr ys \<Longrightarrow> list_all2 (\<lambda>x y. f x = Inr y) xs ys"
  by (induction xs arbitrary: ys) (auto split: sum.splits)

lemma emap_isl: "isl (emap f xs) = (\<exists>x\<in>set xs. isl (f x))"
  by (induction xs) (auto split: sum.splits)

lemma emap_isl_cong:
  "(\<And>x. x \<in> set xs \<Longrightarrow> isl (f (h x)) = isl (g x)) \<Longrightarrow> isl (emap f (map h xs)) = isl (emap g xs)"
  by (simp add: emap_isl)

lemma routing_stats_after_reset:
  "stat_total_tokens (get_routing_stats (router_reset_stats r)) = 0"
  "list_all (\<lambda>x. x = 0) (stat_expert_usage_count (get_routing_stats (router_reset_stats r)))"
  "list_all (\<lambda>x. x = 0) (stat_routing_decisions (get_routing_stats (router_reset_stats r)))"
  "list_all (\<lambda>x. x = 0) (expert_usage_ratios (get_routing_stats (router_reset_stats r)))"
  by (simp_all add: get_routing_stats_def router_reset_stats_def list_all_iff)

lemma any_routing_stats_after_reset:
  "zero_routing_stats (any_routing_stats (any_reset_stats ar))"
  unfolding zero_routing_stats_def
  by (cases ar) (simp_all add: any_routing_stats_def any_reset_stats_def routing_stats_after_reset)

lemma any_reset_keeps:
  "any_networks (any_reset_stats ar) = any_networks ar"
  "any_histories (any_reset_stats ar) = any_histories ar"
  by (cases ar; simp add: any_networks_def any_histories_def any_reset_stats_def
        router_reset_stats_def)+

lemma map_of_map_values:
  "map_of (map (\<lambda>(k, v). (k, f v)) xs) k = map_option f (map_of xs k)"
  by (induction xs) auto

text \<open>
  C1, amended. After \<open>reset_stats\<close> a \<open>get_stats\<close> that returns reports
  zero total and average auxiliary loss, zero forward count and, for every
  layer, zero \<open>total_tokens\<close>, usage counts, routing decisions, usage ratios
  and compression statistics; \<open>get_stats\<close> returns after the reset exactly
  when it did before; and every router keeps its networks and its circular
  histories with their cursors as they were.
\<close>

theorem reset_stats_zeroes_counters:
  "(\<forall>st. get_stats (reset_stats p) = Inr st \<longrightarrow>
      s_total_aux_loss st = 0 \<and> s_avg_aux_loss st = 0 \<and> s_forward_count st = 0 \<and>
      map fst (s_layer_stats st) = map fst (routers p) \<and>
      list_all (\<lambda>(layer_idx, rs, cs). zero_routing_stats rs \<and> zero_compression_stats cs)
        (s_layer_stats st)) \<and>
   isl (get_stats (reset_stats p)) = isl (get_stats p) \<and>
   map (\<lambda>(layer_idx, ar). (layer_idx, any_networks ar, any_histories ar))
       (routers (reset_stats p))
     = map (\<lambda>(layer_idx, ar). (layer_idx, any_networks ar, any_histories ar)) (routers p)"
proof (intro conjI allI impI)
  let ?z = "\<lambda>st. st\<lparr>expert_usage := map (\<lambda>_. 0) (expert_usage st),
                    compression_ratios := map (\<lambda>_. 0) (compression_ratios st),
                    stat_cache_hit_rates := map (\<lambda>_. 0) (stat_cache_hit_rates st)\<rparr>"
  let ?f = "\<lambda>(layer_idx, ar).
              case map_of (expert_compression_stats (reset_stats p)) layer_idx of
                None \<Rightarrow> Inl (KeyError layer_idx)
              | Some cs \<Rightarrow> Inr (layer_idx, any_routing_stats ar, cs)"
  have rt: "routers (reset_stats p)
              = map (\<lambda>(layer_idx, ar). (layer_idx, any_reset_stats ar)) (routers p)"
    by (simp add: reset_stats_def)
  have cs: "map_of (expert_compression_stats (reset_stats p)) k
              = map_option ?z (map_of (expert_compression_stats p) k)" for k
    using map_of_map_values[of ?z "expert_compression_stats p" k]
    by (simp add: reset_stats_def)
  {
    fix st assume a: "get_stats (reset_stats p) = Inr st"
    then obtain ls where ls: "emap ?f (routers (reset_stats p)) = Inr ls"
      and st: "st = \<lparr>s_total_aux_loss = total_aux_loss (reset_stats p),
            s_avg_aux_loss = total_aux_loss (reset_stats p)
                               / real (max 1 (forward_count (reset_stats p))),
            s_forward_count = forward_count (reset_stats p),
            s_layer_stats = ls\<rparr>"
      unfolding get_stats_def by (auto simp: ebind_def split: sum.splits)
    show "s_total_aux_loss st = 0" "s_avg_aux_loss st = 0" "s_forward_count st = 0"
      by (simp_all add: st reset_stats_def)
    from emap_Inr_list_all2[OF ls]
    have l2: "list_all2 (\<lambda>x y. ?f x = Inr y) (routers (reset_stats p)) ls" .
    have el: "fst y = fst x \<and> (case y of (layer_idx, rs, cs) \<Rightarrow>
                 zero_routing_stats rs \<and> zero_compression_stats cs)"
      if x: "x \<in> set (routers (reset_stats p))" and fx: "?f x = Inr y" for x y
    proof -
      obtain l ar where xe: "x = (l, ar)" by (cases x) auto
      from x xe obtain ar0 where ar: "ar = any_reset_stats ar0"
        unfolding rt by auto
      from fx xe obtain c0 where c0: "map_of (expert_compression_stats p) l = Some c0"
        and y: "y = (l, any_routing_stats ar, ?z c0)"
        by (auto simp: cs split: option.splits)
      have "zero_compression_stats (?z c0)"
        by (simp add: zero_compression_stats_def list_all_iff)
      then show ?thesis
        unfolding y xe ar using any_routing_stats_after_reset[of ar0] by simp
    qed
    have len: "length (routers (reset_stats p)) = length ls"
      using l2 by (rule list_all2_lengthD)
    have "\<forall>i<length (routers (reset_stats p)).
            fst (ls ! i) = fst (routers (reset_stats p) ! i) \<and>
            (case ls ! i of (layer_idx, rs, cs) \<Rightarrow>
                 zero_routing_stats rs \<and> zero_compression_stats cs)"
    proof (rule allI, rule impI)
      fix i assume i: "i < length (routers (reset_stats p))"
      then have "routers (reset_stats p) ! i \<in> set (routers (reset_stats p))" by simp
      moreover have "?f (routers (reset_stats p) ! i) = Inr (ls ! i)"
        using l2 i by (simp add: list_all2_conv_all_nth)
      ultimately show "fst (ls ! i) = fst (routers (reset_stats p) ! i) \<and>
          (case ls ! i of (layer_idx, rs, cs) \<Rightarrow>
                 zero_routing_stats rs \<and> zero_compression_stats cs)"
        by (rule el)
    qed
    with len have "list_all2 (\<lambda>x y. fst y = fst x \<and> (case y of (layer_idx, rs, cs) \<Rightarrow>
                 zero_routing_stats rs \<and> zero_compression_stats cs))
                 (routers (reset_stats p)) ls"
      unfolding list_all2_conv_all_nth by (rule conjI)
    then have 1: "map fst ls = map fst (routers (reset_stats p))"
      and 2: "list_all (\<lambda>(layer_idx, rs, cs). zero_routing_stats rs \<and> zero_compression_stats cs) ls"
      by (induction rule: list_all2_induct) auto
    from 1 show "map fst (s_layer_stats st) = map fst (routers p)"
      by (simp add: st rt case_prod_unfold)
    from 2 show "list_all (\<lambda>(layer_idx, rs, cs). zero_routing_stats rs \<and> zero_compression_stats cs)
        (s_layer_stats st)"
      by (simp add: st)
  }
  let ?g = "\<lambda>(layer_idx, ar).
              case map_of (expert_compression_stats p) layer_idx of
                None \<Rightarrow> Inl (KeyError layer_idx)
              | Some cs \<Rightarrow> Inr (layer_idx, any_routing_stats ar, cs)"
  have "isl (emap ?f (map (\<lambda>(layer_idx, ar). (layer_idx, any_reset_stats ar)) (routers p)))
          = isl (emap ?g (routers p))"
    by (rule emap_isl_cong) (auto simp: cs split: option.splits)
  then show "isl (get_stats (reset_stats p)) = isl (get_stats p)"
    unfolding get_stats_def rt by (auto simp: ebind_def split: sum.splits)
  show "map (\<lambda>(layer_idx, ar). (layer_idx, any_networks ar, any_histories ar))
       (routers (reset_stats p))
     = map (\<lambda>(layer_idx, ar). (layer_idx, any_networks ar, any_histories ar)) (routers p)"
    unfolding rt by (simp add: any_reset_keeps case_prod_unfold comp_def)
qed


theorem reset_stats_zeroes_counters_witness:
  "\<exists>st. get_stats (reset_stats busy_press) = Inr st \<and>
     s_total_aux_loss st = 0 \<and> s_avg_aux_loss st = 0 \<and> s_forward_count st = 0 \<and>
     map fst (s_layer_stats st) = [3] \<and>
     list_all (\<lambda>(layer_idx, rs, cs). zero_routing_stats rs \<and> zero_compression_stats cs)
       (s_layer_stats st) \<and>
     map (\<lambda>(layer_idx, ar). any_histories ar) (routers (reset_stats busy_press))
       = [[([(replicate 100 0)[0 := 1 / 4, 1 := 1 / 4]], 2)]]"
proof -
  have rt: "map fst (routers busy_press) = [3]"
    by (simp add: busy_press_def)
  have hs: "map (\<lambda>(layer_idx, ar). (layer_idx, any_networks ar, any_histories ar))
              (routers busy_press)
            = [(3, [router gini_router], [([(replicate 100 0)[0 := 1 / 4, 1 := 1 / 4]], 2)])]"
    by (simp add: busy_press_def any_histories_def any_networks_def)
  have "\<not> isl (get_stats busy_press)"
    by (simp add: get_stats_def busy_press_def default_press_def post_init_def ebind_def)
  with reset_stats_zeroes_counters[of busy_press]
  have "\<not> isl (get_stats (reset_stats busy_press))" by simp
  then obtain st where st: "get_stats (reset_stats busy_press) = Inr st"
    by (cases "get_stats (reset_stats busy_press)") auto
  have "map (\<lambda>(layer_idx, ar). any_histories ar) (routers (reset_stats busy_press))
          = map (snd \<circ> snd) (map (\<lambda>(layer_idx, ar). (layer_idx, any_networks ar, any_histories ar))
              (routers (reset_stats busy_press)))"
    by (simp add: case_prod_unfold comp_def)
  also have "\<dots> = [[([(replicate 100 0)[0 := 1 / 4, 1 := 1 / 4]], 2)]]"
    using reset_stats_zeroes_counters[of busy_press] hs by simp
  finally have h: "map (\<lambda>(layer_idx, ar). any_histories ar) (routers (reset_stats busy_press))
       = [[([(replicate 100 0)[0 := 1 / 4, 1 := 1 / 4]], 2)]]" .
  from st reset_stats_zeroes_counters[of busy_press] rt h show ?thesis
    by (intro exI[of _ st]) simp
qed

subsection \<open>The effective top-k of the adaptive routers\<close>

lemma top_k_record_importance: "top_k (record_importance importance r) = top_k r"
proof -
  have "top_k (foldl (\<lambda>r' imp_val.
              r'\<lparr>importance_history :=
                    (importance_history r')[importance_idx r' mod 1000 := imp_val],
                  importance_idx := importance_idx r' + 1\<rparr>) r xs) = top_k r" for xs
    by (induction xs arbitrary: r) simp_all
  then show ?thesis by (simp add: record_importance_def)
qed

lemma base_forward_top_k:
  "base_forward r hs em keep = (res, r') \<Longrightarrow> top_k r' = top_k r"
  by (auto simp: base_forward_def Let_def update_base_stats_def split: sum.splits prod.splits)

text \<open>
  C8. When \<open>AdaptiveRouter.forward\<close> or \<open>PiKVMoERouter.forward\<close> returns, the
  router's \<open>top_k\<close> is what it was before the call, whatever effective
  value the predictor chose for the call.
\<close>

theorem effective_top_k_is_call_scoped:
  "(adaptive_forward r hidden_states expert_mask keep keep_imp = (Inr out, r')
      \<longrightarrow> top_k r' = top_k r) \<and>
   (pikv_forward q hidden_states expert_mask keep keep_imp = (Inr out', q')
      \<longrightarrow> top_k q' = top_k q)"
proof (intro conjI impI)
  assume a: "adaptive_forward r hidden_states expert_mask keep keep_imp = (Inr out, r')"
  then obtain importance k d c probs aux r2 where
    "base_forward (r\<lparr>top_k := k\<rparr>) hidden_states expert_mask keep
       = (Inr (d, c, probs, aux), r2)"
    and r': "r' = record_importance importance (r2\<lparr>top_k := top_k r\<rparr>)"
    unfolding adaptive_forward_def Let_def
    by (auto split: sum.splits prod.splits)
  show "top_k r' = top_k r"
    unfolding r' by (simp add: top_k_record_importance)
next
  assume a: "pikv_forward q hidden_states expert_mask keep keep_imp = (Inr out', q')"
  then obtain k idxs where
    "q' = update_usage_count (batch_size_of hidden_states) (seq_len_of hidden_states) idxs
            (q\<lparr>top_k := k, top_k := top_k q\<rparr>)"
    unfolding pikv_forward_def Let_def
    by (auto split: sum.splits prod.splits)
  then show "top_k q' = top_k q"
    by (simp add: update_usage_count_def)
qed


lemma first_adaptive_fields:
  "training first_adaptive = True" "top_k first_adaptive = 2" "num_experts first_adaptive = 4"
  "capacity_factor first_adaptive = 3 / 2"
  by (simp_all add: first_adaptive_def new_adaptive_router_def)

lemma adaptive_importance: "compute_importance first_adaptive [[[0]]] keep_all = Inr [[1 / 2]]"
  by (simp add: compute_importance_def first_adaptive_def new_adaptive_router_def apply_tokens_def
      keep_all_def ebind_def default_linear_def zero_rng_def dot_def)

lemma adaptive_top_k: "adapt_top_k first_adaptive [[[0]]] [[1 / 2]] = Inr 1"
  by (simp add: adapt_top_k_def first_adaptive_def new_adaptive_router_def ebind_def
      mean_features_def mean_def default_linear_def zero_rng_def dot_def softmax_def argmax_def u2)

lemma adaptive_logits:
  "apply_tokens True keep_all (router first_adaptive) [[[0]]] = Inr [[[0, 0, 0, 0]]]"
  by (simp add: first_adaptive_def new_adaptive_router_def apply_tokens_def keep_all_def
      init_linear_def zero_rng_def dot_def u4 rep4)

lemma adaptive_base_forward:
  "\<exists>d c aux r2.
     base_forward (first_adaptive\<lparr>top_k := 1\<rparr>) [[[0]]] None keep_all
       = (Inr (d, c, [[[1 / 4, 1 / 4, 1 / 4, 1 / 4]]], aux), r2)"
proof -
  let ?r = "first_adaptive\<lparr>top_k := 1\<rparr>"
  have "topk_shape 1 1 (top_k ?r) (num_experts ?r) [[[0]]] (renormalize [[[1 / 4]]])"
    by (simp add: topk_shape_def renormalize_def first_adaptive_fields)
  moreover have "compute_capacity ?r 1 1 = Inr 0"
    by (simp add: compute_capacity_def first_adaptive_fields py_int_def)
  ultimately obtain d c where
    dc: "create_dispatch_combine_tensors ?r [[[0]]] (renormalize [[[1 / 4]]]) 1 1 = Inr (d, c)"
    using create_ok by blast
  have bs: "batch_size_of [[[0::real]]] = 1" "seq_len_of [[[0::real]]] = 1"
    by (simp_all add: batch_size_of_def seq_len_of_def)
  have sm: "map (map softmax) (apply_expert_mask None [[[0, 0, 0, 0]]])
              = [[[1 / 4, 1 / 4, 1 / 4, 1 / 4]]]"
    by (simp add: apply_expert_mask_def softmax4)
  have f: "training ?r = True" "router ?r = router first_adaptive" "top_k ?r = 1"
    by (simp_all add: first_adaptive_fields)
  show ?thesis
    unfolding base_forward_def Let_def bs f adaptive_logits
    by (simp only: sum.case sm first_topk prod.case dc) simp
qed

theorem effective_top_k_is_call_scoped_witness:
  "(\<exists>out r'. adaptive_forward first_adaptive [[[0]]] None keep_all keep_all = (Inr out, r') \<and>
      adapt_top_k first_adaptive [[[0]]] [[1 / 2]] = Inr 1 \<and> top_k r' = 2) \<and>
   (\<exists>out' q'. pikv_forward first_router [[[0]]] None keep_all keep_all = (Inr out', q') \<and>
      adapt_top_k first_router [[[0]]] [[1 / 2]] = Inr 1 \<and> top_k q' = 2)"
proof -
  from adaptive_base_forward obtain d c aux r2 where
    bf: "base_forward (first_adaptive\<lparr>top_k := 1\<rparr>) [[[0]]] None keep_all
       = (Inr (d, c, [[[1 / 4, 1 / 4, 1 / 4, 1 / 4]]], aux), r2)" by blast
  have "\<exists>out r'. adaptive_forward first_adaptive [[[0]]] None keep_all keep_all = (Inr out, r')"
    unfolding adaptive_forward_def Let_def adaptive_importance
    by (simp only: sum.case adaptive_top_k bf prod.case) simp
  then obtain out r' where
    af: "adaptive_forward first_adaptive [[[0]]] None keep_all keep_all = (Inr out, r')"
    by blast
  from first_forward obtain out' q' where
    pf: "pikv_forward first_router [[[0]]] None keep_all keep_all = (Inr out', q')"
    by blast
  from effective_top_k_is_call_scoped[THEN conjunct1, THEN mp, OF af]
  have 1: "top_k r' = 2" by (simp add: first_adaptive_fields)
  from effective_top_k_is_call_scoped[THEN conjunct2, THEN mp, OF pf]
  have 2: "top_k q' = 2" by (simp add: first_router_fields)
  from af pf 1 2 adaptive_top_k first_top_k show ?thesis by blast
qed

subsection \<open>A dominant expert beyond the strategy table\<close>

lemma get_router_strategies:
  "get_router p layer_idx hsz g = Inr (ar, p1) \<Longrightarrow> expert_strategies p1 = expert_strategies p"
  by (auto simp: get_router_def ebind_def split: option.splits sum.splits)

text \<open>
  C9. The strategy table set by \<open>__post_init__\<close> has exactly the keys 0 to 3.
  A \<open>compress\<close> call whose router returns and whose dominant expert is 4 or
  more raises \<open>KeyError\<close> with that index instead of returning arrays.
\<close>

theorem dominant_expert_beyond_table:
  "dom (map_of (expert_strategies (post_init p))) = {0, 1, 2, 3} \<and>
   (expert_strategies p = expert_strategies (post_init p) \<and>
    get_router p layer_idx (hidden_dim_of hidden_states) g = Inr (ar, p1) \<and>
    call_router ar hidden_states keep keep_imp = (Inr (router_probs, aux_loss), ar') \<and>
    argmax (mean_per_expert (any_num_experts ar') router_probs) = Inr dominant_expert \<and>
    4 \<le> dominant_expert
    \<longrightarrow> fst (compress p layer_idx hidden_states keys vals g keep keep_imp)
          = Inl (KeyError dominant_expert))"
proof (intro conjI impI)
  show "dom (map_of (expert_strategies (post_init p))) = {0, 1, 2, 3}"
    by (auto simp: post_init_def dom_def split: if_splits)
next
  assume a: "expert_strategies p = expert_strategies (post_init p) \<and>
    get_router p layer_idx (hidden_dim_of hidden_states) g = Inr (ar, p1) \<and>
    call_router ar hidden_states keep keep_imp = (Inr (router_probs, aux_loss), ar') \<and>
    argmax (mean_per_expert (any_num_experts ar') router_probs) = Inr dominant_expert \<and>
    4 \<le> dominant_expert"
  then have "expert_strategies p1 = expert_strategies (post_init p)"
    using get_router_strategies by metis
  with a have "map_of (expert_strategies p1) dominant_expert = None"
    by (simp add: post_init_def)
  with a show "fst (compress p layer_idx hidden_states keys vals g keep keep_imp)
          = Inl (KeyError dominant_expert)"
    by (simp add: compress_def Let_def)
qed


lemma trained_fields:
  "training trained_router = True" "top_k trained_router = 2" "num_experts trained_router = 5"
  "capacity_factor trained_router = 3 / 2"
  by (simp_all add: trained_router_def new_base_router_def)

lemma trained_logits:
  "apply_tokens True keep_all (router trained_router) [[[0]]] = Inr [[[0, 0, 0, 0, ln 2]]]"
  by (simp add: trained_router_def new_base_router_def apply_tokens_def keep_all_def dot_def)

lemma trained_softmax:
  "softmax [0, 0, 0, 0, ln 2] = [1 / 6, 1 / 6, 1 / 6, 1 / 6, 1 / 3]"
  by (simp add: softmax_def)

lemma trained_topk:
  "topk_tokens 2 [[[1 / 6, 1 / 6, 1 / 6, 1 / 6, 1 / 3]]] = Inr ([[[1 / 3, 1 / 6]]], [[[4, 0]]])"
  by (simp add: topk_tokens_def topk_def ebind_def u5)

lemma trained_forward:
  "\<exists>d c aux r'.
     base_forward trained_router [[[0]]] None keep_all
       = (Inr (d, c, [[[1 / 6, 1 / 6, 1 / 6, 1 / 6, 1 / 3]]], aux), r') \<and>
     num_experts r' = 5"
proof -
  have "topk_shape 1 1 (top_k trained_router) (num_experts trained_router) [[[4, 0]]]
          (renormalize [[[1 / 3, 1 / 6]]])"
    by (simp add: topk_shape_def renormalize_def trained_fields)
  moreover have "compute_capacity trained_router 1 1 = Inr 0"
    by (simp add: compute_capacity_def trained_fields py_int_def)
  ultimately obtain d c where
    dc: "create_dispatch_combine_tensors trained_router [[[4, 0]]]
           (renormalize [[[1 / 3, 1 / 6]]]) 1 1 = Inr (d, c)"
    using create_ok by blast
  have bs: "batch_size_of [[[0::real]]] = 1" "seq_len_of [[[0::real]]] = 1"
    by (simp_all add: batch_size_of_def seq_len_of_def)
  have sm: "map (map softmax) (apply_expert_mask None [[[0, 0, 0, 0, ln 2]]])
              = [[[1 / 6, 1 / 6, 1 / 6, 1 / 6, 1 / 3]]]"
    by (simp add: apply_expert_mask_def trained_softmax)
  show ?thesis
    unfolding base_forward_def Let_def bs trained_fields trained_logits
    by (simp only: sum.case sm trained_topk prod.case dc)
       (simp add: update_base_stats_def trained_fields)
qed

lemma trained_dominant:
  "argmax (mean_per_expert 5 [[[1 / 6, 1 / 6, 1 / 6, 1 / 6, 1 / 3]]]) = Inr 4"
  by (simp add: mean_per_expert_def mean_def argmax_def u5)

theorem dominant_expert_beyond_table_witness:
  "dom (map_of (expert_strategies (post_init five_press))) = {0, 1, 2, 3} \<and>
   argmax (mean_per_expert 5 [[[1 / 6, 1 / 6, 1 / 6, 1 / 6, 1 / 3]]]) = Inr 4 \<and>
   fst (compress five_press 0 [[[0]]] (pos_tensor 4) (pos_tensor 4) zero_rng keep_all keep_all)
     = Inl (KeyError 4)"
proof -
  from trained_forward obtain d c aux r' where
    bf: "base_forward trained_router [[[0]]] None keep_all
       = (Inr (d, c, [[[1 / 6, 1 / 6, 1 / 6, 1 / 6, 1 / 3]]], aux), r')"
    and ne: "num_experts r' = 5" by blast
  have st: "expert_strategies five_press = expert_strategies (post_init five_press)"
    by (simp add: five_press_def default_press_def post_init_def)
  have gr: "get_router five_press 0 (hidden_dim_of [[[0]]]) zero_rng
              = Inr (BaseR trained_router, five_press)"
    by (simp add: get_router_def five_press_def)
  have cr: "call_router (BaseR trained_router) [[[0]]] keep_all keep_all
              = (Inr ([[[1 / 6, 1 / 6, 1 / 6, 1 / 6, 1 / 3]]], aux), BaseR r')"
    by (simp add: call_router_def bf)
  have am: "argmax (mean_per_expert (any_num_experts (BaseR r'))
              [[[1 / 6, 1 / 6, 1 / 6, 1 / 6, 1 / 3]]]) = Inr 4"
    using trained_dominant by (simp add: any_num_experts_def ne)
  from dominant_expert_beyond_table[of five_press 0 "[[[0]]]" zero_rng "BaseR trained_router"
      five_press keep_all keep_all "[[[1 / 6, 1 / 6, 1 / 6, 1 / 6, 1 / 3]]]" aux "BaseR r'" 4
      "pos_tensor 4" "pos_tensor 4"]
    st gr cr am trained_dominant
  show ?thesis by simp
qed

subsection \<open>Hierarchical routing\<close>

lemma emap_nth:
  assumes "emap f xs = Inr ys"
  shows "length ys = length xs" and "i < length xs \<Longrightarrow> f (xs ! i) = Inr (ys ! i)"
  using emap_Inr_list_all2[OF assms] by (simp_all add: list_all2_conv_all_nth)

lemma nth_update_total: "xs[i := x] ! j = (if i = j \<and> i < length xs then x else xs ! j)"
  by (cases "i < length xs") (simp_all add: nth_list_update list_update_beyond)

lemma put_length: "length (put e f x) = length f"
  by (cases x) (auto simp: put_def)

lemma put_length2: "length (put e f x ! b) = length (f ! b)"
  by (cases x) (auto simp: put_def nth_update_total)

lemma put_length3: "length (put e f x ! b ! s) = length (f ! b ! s)"
  by (cases x) (auto simp: put_def nth_update_total)

lemma put_other: "fst x \<noteq> (b, s) \<Longrightarrow> put e f x ! b ! s = f ! b ! s"
proof -
  obtain a c v where x: "x = ((a, c), v)" by (cases x) auto
  assume "fst x \<noteq> (b, s)"
  with x have ne: "a \<noteq> b \<or> c \<noteq> s" by auto
  show ?thesis
  proof (cases "a = b")
    case True
    with ne have "c \<noteq> s" by simp
    then show ?thesis unfolding x put_def using True
      by (simp add: nth_update_total)
  next
    case False
    then show ?thesis unfolding x put_def by (simp add: nth_update_total)
  qed
qed

lemma put_same:
  "b < length f \<Longrightarrow> s < length (f ! b) \<Longrightarrow> put e f ((b, s), v) ! b ! s = (f ! b ! s)[e := v]"
  by (simp add: put_def)

lemma foldl_put_length:
  "length (foldl (put e) f ps) = length f"
  "length (foldl (put e) f ps ! b) = length (f ! b)"
  "length (foldl (put e) f ps ! b ! s) = length (f ! b ! s)"
  by (induction ps arbitrary: f) (simp_all add: put_length put_length2 put_length3)

lemma foldl_put_other:
  "(b, s) \<notin> fst ` set ps \<Longrightarrow> foldl (put e) f ps ! b ! s = f ! b ! s"
  by (induction ps arbitrary: f) (auto simp: put_other)

lemma foldl_put_same:
  "distinct (map fst ps) \<Longrightarrow> ((b, s), v) \<in> set ps \<Longrightarrow> b < length f \<Longrightarrow> s < length (f ! b)
     \<Longrightarrow> foldl (put e) f ps ! b ! s = (f ! b ! s)[e := v]"
proof (induction ps arbitrary: f)
  case Nil
  then show ?case by simp
next
  case (Cons x ps)
  show ?case
  proof (cases "x = ((b, s), v)")
    case True
    with Cons.prems(1) have "(b, s) \<notin> fst ` set ps" by force
    then have "foldl (put e) (put e f x) ps ! b ! s = put e f x ! b ! s"
      by (rule foldl_put_other)
    with True Cons.prems(3,4) show ?thesis by (simp add: put_same)
  next
    case False
    with Cons.prems(2) have m: "((b, s), v) \<in> set ps" by simp
    with Cons.prems(1) have ne: "fst x \<noteq> (b, s)" by force
    have "foldl (put e) (put e f x) ps ! b ! s = (put e f x ! b ! s)[e := v]"
      using Cons.prems(1,3,4) m
      by (intro Cons.IH) (simp_all add: put_length put_length2)
    with ne show ?thesis by (simp add: put_other)
  qed
qed


lemma distinct_token_positions: "distinct (token_positions B S)"
proof -
  have "token_positions B S = List.product [0..<B] [0..<S]"
    by (simp add: token_positions_def product_concat_map)
  then show ?thesis by (simp add: distinct_product)
qed

lemma set_token_positions: "set (token_positions B S) = {(b, s). b < B \<and> s < S}"
  by (auto simp: token_positions_def)

lemma scatter_column_props:
  assumes sc: "scatter_column masked fi i e f = Inr f'"
    and d: "distinct masked" and len: "length fi = length masked"
  shows "length f' = length f" "length (f' ! b) = length (f ! b)"
    "length (f' ! b ! s) = length (f ! b ! s)"
    and "(b, s) \<notin> set masked \<Longrightarrow> f' ! b ! s = f ! b ! s"
    and "n < length masked \<Longrightarrow> masked ! n = (b, s) \<Longrightarrow> b < length f \<Longrightarrow> s < length (f ! b)
           \<Longrightarrow> i < length (fi ! n) \<and> f' ! b ! s = (f ! b ! s)[e := fi ! n ! i]"
proof -
  from sc obtain col where col: "emap (\<lambda>row. at_index row i) fi = Inr col"
    and f': "f' = foldl (put e) f (zip masked col)"
    by (auto simp: scatter_column_def ebind_def split: sum.splits)
  note cn = emap_nth[OF col]
  have lc: "length col = length masked" using cn(1) len by simp
  have dz: "distinct (map fst (zip masked col))" using d lc by simp
  show "length f' = length f" "length (f' ! b) = length (f ! b)"
    "length (f' ! b ! s) = length (f ! b ! s)"
    unfolding f' by (rule foldl_put_length)+
  show "f' ! b ! s = f ! b ! s" if "(b, s) \<notin> set masked"
  proof -
    have "(b, s) \<notin> fst ` set (zip masked col)"
      using that by (auto dest: set_zip_leftD)
    then show ?thesis unfolding f' by (rule foldl_put_other)
  qed
  show "i < length (fi ! n) \<and> f' ! b ! s = (f ! b ! s)[e := fi ! n ! i]"
    if n: "n < length masked" and m: "masked ! n = (b, s)" and r: "b < length f" "s < length (f ! b)"
  proof -
    from n len have "at_index (fi ! n) i = Inr (col ! n)" using cn(2) by simp
    then have a: "i < length (fi ! n)" "col ! n = fi ! n ! i"
      by (auto simp: at_index_def split: if_splits)
    have "((b, s), col ! n) \<in> set (zip masked col)"
      using n lc m by (metis in_set_zip fst_conv snd_conv)
    from foldl_put_same[OF dz this r] a show ?thesis unfolding f' by simp
  qed
qed

lemma efold_pair: "efold F a [x, y] = Inr c \<Longrightarrow> \<exists>b. F a x = Inr b \<and> F b y = Inr c"
  by (auto split: sum.splits)

lemma route_group_token:
  assumes rg: "route_group r hs tgp tgi j f g = Inr f'"
    and cfg: "experts_per_group r = 2" "num_experts r = 8" "g < 4"
    and tok: "b < batch_size_of hs" "s < seq_len_of hs"
    and shape: "b < length f" "s < length (f ! b)"
  shows "length f' = length f" "length (f' ! b) = length (f ! b)"
    and "tgi ! b ! s ! j \<noteq> g \<Longrightarrow> f' ! b ! s = f ! b ! s"
    and "tgi ! b ! s ! j = g \<Longrightarrow>
           \<exists>net logits. at_index (intra_group_routers r) g = Inr net \<and>
             apply_seq (training r) (\<lambda>_. True) net (hs ! b ! s) = Inr logits \<and>
             1 < length logits \<and>
             f' ! b ! s = (f ! b ! s)[g * 2 := softmax logits ! 0 * (tgp ! b ! s ! j),
                                     g * 2 + 1 := softmax logits ! 1 * (tgp ! b ! s ! j)]"
proof -
  let ?pos = "token_positions (batch_size_of hs) (seq_len_of hs)"
  let ?masked = "filter (\<lambda>(b, s). tgi ! b ! s ! j = g) ?pos"
  have dm: "distinct ?masked" by (simp add: distinct_token_positions)
  have mem: "(b, s) \<in> set ?masked \<longleftrightarrow> tgi ! b ! s ! j = g"
    using tok by (simp add: set_token_positions)
  have "length f' = length f \<and> length (f' ! b) = length (f ! b) \<and>
        (tgi ! b ! s ! j \<noteq> g \<longrightarrow> f' ! b ! s = f ! b ! s) \<and>
        (tgi ! b ! s ! j = g \<longrightarrow>
           (\<exists>net logits. at_index (intra_group_routers r) g = Inr net \<and>
             apply_seq (training r) (\<lambda>_. True) net (hs ! b ! s) = Inr logits \<and>
             1 < length logits \<and>
             f' ! b ! s = (f ! b ! s)[g * 2 := softmax logits ! 0 * (tgp ! b ! s ! j),
                                     g * 2 + 1 := softmax logits ! 1 * (tgp ! b ! s ! j)]))"
    (is "?goal")
  proof (cases "?masked = []")
    case True
    with rg have "f' = f" by (simp add: route_group_def Let_def)
    moreover from True mem have "tgi ! b ! s ! j \<noteq> g"
      by (metis empty_iff list.set(1))
    ultimately show ?thesis by simp
  next
    case False
    let ?gpv = "map (\<lambda>(b, s). tgp ! b ! s ! j) ?masked"
    let ?F = "\<lambda>ll f i.
                         let expert_idx = g * experts_per_group r + i
                         in if expert_idx < num_experts r
                            then scatter_column ?masked
                                   (map2 (\<lambda>ps gp. map (\<lambda>p. p * gp) ps) (map softmax ll) ?gpv)
                                   i expert_idx f
                            else Inr f"
    from rg False have
      "ebind (at_index (intra_group_routers r) g) (\<lambda>net.
         ebind (emap (\<lambda>(b, s). apply_seq (training r) (\<lambda>_. True) net (hs ! b ! s)) ?masked)
           (\<lambda>ll. efold (?F ll) f [0..<experts_per_group r])) = Inr f'"
      unfolding route_group_def Let_def by (simp only: if_False)
    then obtain net ll where
      net: "at_index (intra_group_routers r) g = Inr net" and
      ll: "emap (\<lambda>(b, s). apply_seq (training r) (\<lambda>_. True) net (hs ! b ! s)) ?masked = Inr ll"
      and ef: "efold (?F ll) f [0..<experts_per_group r] = Inr f'"
      unfolding ebind_Inr by blast
    let ?fi = "map2 (\<lambda>ps gp. map (\<lambda>p. p * gp) ps) (map softmax ll) ?gpv"
    note ln = emap_nth[OF ll]
    have lfi: "length ?fi = length ?masked" using ln(1) by simp
    have lt: "g * 2 < 8" "g * 2 + 1 < 8" using cfg(3) by simp_all
    from ef have "efold (?F ll) f [0, 1] = Inr f'"
      unfolding cfg(1) u2 .
    from efold_pair[OF this] obtain f1 where
      e0: "?F ll f 0 = Inr f1" and e1: "?F ll f1 1 = Inr f'" by blast
    have s0: "scatter_column ?masked ?fi 0 (g * 2) f = Inr f1"
      using e0 lt unfolding cfg(1,2) Let_def by simp
    have s1: "scatter_column ?masked ?fi 1 (g * 2 + 1) f1 = Inr f'"
      using e1 lt unfolding cfg(1,2) Let_def by simp
    note p0 = scatter_column_props[OF s0 dm lfi]
    note p1 = scatter_column_props[OF s1 dm lfi]
    have l1: "length f' = length f" using p0(1) p1(1) by simp
    have l2: "length (f' ! b) = length (f ! b)" using p0(2) p1(2) by simp
    have other: "f' ! b ! s = f ! b ! s" if "tgi ! b ! s ! j \<noteq> g"
    proof -
      from that mem have "(b, s) \<notin> set ?masked" by simp
      with p0(4) p1(4) show ?thesis by simp
    qed
    have same: "\<exists>logits. apply_seq (training r) (\<lambda>_. True) net (hs ! b ! s) = Inr logits \<and>
             1 < length logits \<and>
             f' ! b ! s = (f ! b ! s)[g * 2 := softmax logits ! 0 * (tgp ! b ! s ! j),
                                     g * 2 + 1 := softmax logits ! 1 * (tgp ! b ! s ! j)]"
      if "tgi ! b ! s ! j = g"
    proof -
      from that mem have "(b, s) \<in> set ?masked" by simp
      then obtain n where n: "n < length ?masked" "?masked ! n = (b, s)"
        unfolding in_set_conv_nth by blast
      from ln(2)[OF n(1)] n(2) have lg: "apply_seq (training r) (\<lambda>_. True) net (hs ! b ! s) = Inr (ll ! n)"
        by simp
      have nz: "n < length (zip (map softmax ll) ?gpv)" using n(1) ln(1) by simp
      have g1: "?gpv ! n = tgp ! b ! s ! j"
        using n by (simp only: nth_map prod.case)
      have g2: "map softmax ll ! n = softmax (ll ! n)"
        using n(1) ln(1) by (simp only: nth_map)
      have fin: "?fi ! n = map (\<lambda>p. p * (tgp ! b ! s ! j)) (softmax (ll ! n))"
        using nz by (simp only: nth_map nth_zip length_zip min_less_iff_conj prod.case g1 g2)
      have w0: "0 < length (?fi ! n) \<and> f1 ! b ! s = (f ! b ! s)[g * 2 := ?fi ! n ! 0]"
        using p0(5)[OF n shape] .
      have sh1: "b < length f1" "s < length (f1 ! b)" using shape p0(1,2) by simp_all
      have w1: "1 < length (?fi ! n) \<and> f' ! b ! s = (f1 ! b ! s)[g * 2 + 1 := ?fi ! n ! 1]"
        using p1(5)[OF n sh1] .
      have len: "length (?fi ! n) = length (ll ! n)"
        unfolding fin by (simp add: softmax_def)
      have ls: "1 < length (softmax (ll ! n))"
        using w1 unfolding fin by (simp only: length_map)
      have v0: "?fi ! n ! 0 = softmax (ll ! n) ! 0 * (tgp ! b ! s ! j)"
        and v1: "?fi ! n ! 1 = softmax (ll ! n) ! 1 * (tgp ! b ! s ! j)"
      proof -
        from ls have l0: "0 < length (softmax (ll ! n))" by (rule less_trans[OF zero_less_one])
        show "?fi ! n ! 0 = softmax (ll ! n) ! 0 * (tgp ! b ! s ! j)"
          unfolding fin using l0 by (rule nth_map)
        show "?fi ! n ! 1 = softmax (ll ! n) ! 1 * (tgp ! b ! s ! j)"
          unfolding fin using ls by (rule nth_map)
      qed
      have "f' ! b ! s = (f ! b ! s)[g * 2 := ?fi ! n ! 0, g * 2 + 1 := ?fi ! n ! 1]"
        using w0 w1 by simp
      then have eq: "f' ! b ! s = (f ! b ! s)[g * 2 := softmax (ll ! n) ! 0 * (tgp ! b ! s ! j),
                                     g * 2 + 1 := softmax (ll ! n) ! 1 * (tgp ! b ! s ! j)]"
        unfolding v0 v1 .
      have "1 < length (ll ! n)" using w1 len by simp
      with lg eq show ?thesis by blast
    qed
    from l1 l2 other same net show ?thesis by blast
  qed
  then show "length f' = length f" "length (f' ! b) = length (f ! b)"
    and "tgi ! b ! s ! j \<noteq> g \<Longrightarrow> f' ! b ! s = f ! b ! s"
    and "tgi ! b ! s ! j = g \<Longrightarrow>
           \<exists>net logits. at_index (intra_group_routers r) g = Inr net \<and>
             apply_seq (training r) (\<lambda>_. True) net (hs ! b ! s) = Inr logits \<and>
             1 < length logits \<and>
             f' ! b ! s = (f ! b ! s)[g * 2 := softmax logits ! 0 * (tgp ! b ! s ! j),
                                     g * 2 + 1 := softmax logits ! 1 * (tgp ! b ! s ! j)]"
    by blast+
qed

lemma groups_token:
  assumes cfg: "experts_per_group r = 2" "num_experts r = 8"
    and tok: "b < batch_size_of hs" "s < seq_len_of hs"
  shows "efold (route_group r hs tgp tgi j) f gs = Inr f' \<Longrightarrow> set gs \<subseteq> {..<4} \<Longrightarrow> distinct gs
     \<Longrightarrow> b < length f \<Longrightarrow> s < length (f ! b)
     \<Longrightarrow> length f' = length f \<and> length (f' ! b) = length (f ! b) \<and>
         (tgi ! b ! s ! j \<notin> set gs \<longrightarrow> f' ! b ! s = f ! b ! s) \<and>
         (tgi ! b ! s ! j \<in> set gs \<longrightarrow>
            (\<exists>net logits. at_index (intra_group_routers r) (tgi ! b ! s ! j) = Inr net \<and>
               apply_seq (training r) (\<lambda>_. True) net (hs ! b ! s) = Inr logits \<and>
               1 < length logits \<and>
               f' ! b ! s = (f ! b ! s)
                 [tgi ! b ! s ! j * 2 := softmax logits ! 0 * (tgp ! b ! s ! j),
                  tgi ! b ! s ! j * 2 + 1 := softmax logits ! 1 * (tgp ! b ! s ! j)]))"
proof (induction gs arbitrary: f)
  case Nil
  then show ?case by simp
next
  case (Cons g gs)
  from Cons.prems(1) obtain f1 where
    rg: "route_group r hs tgp tgi j f g = Inr f1" and
    rest: "efold (route_group r hs tgp tgi j) f1 gs = Inr f'"
    by (auto split: sum.splits)
  from Cons.prems(2) have g4: "g < 4" and sub: "set gs \<subseteq> {..<4}" by simp_all
  from Cons.prems(3) have gn: "g \<notin> set gs" and dg: "distinct gs" by simp_all
  note t = route_group_token[OF rg cfg g4 tok Cons.prems(4,5)]
  have sh1: "b < length f1" "s < length (f1 ! b)"
    using t(1,2) Cons.prems(4,5) by simp_all
  note ih = Cons.IH[OF rest sub dg sh1]
  show ?case
  proof (cases "tgi ! b ! s ! j = g")
    case True
    with gn have "tgi ! b ! s ! j \<notin> set gs" by simp
    with ih have e: "f' ! b ! s = f1 ! b ! s" by simp
    from t(4)[OF True] obtain net logits where
      "at_index (intra_group_routers r) g = Inr net"
      "apply_seq (training r) (\<lambda>_. True) net (hs ! b ! s) = Inr logits"
      "1 < length logits"
      "f1 ! b ! s = (f ! b ! s)[g * 2 := softmax logits ! 0 * (tgp ! b ! s ! j),
                               g * 2 + 1 := softmax logits ! 1 * (tgp ! b ! s ! j)]"
      by blast
    with e True ih t(1,2) show ?thesis by auto
  next
    case False
    with t(3) have e: "f1 ! b ! s = f ! b ! s" by simp
    from ih t(1,2) e False show ?thesis by auto
  qed
qed

lemma apply_tokens_shape:
  assumes "apply_tokens t keep net hs = Inr ys"
  shows "length ys = length hs" and "b < length hs \<Longrightarrow> length (ys ! b) = length (hs ! b)"
proof -
  let ?f = "\<lambda>(b, row). emap (\<lambda>(s, x). apply_seq t (keep b s) net x) (zip [0..<length row] row)"
  from assms have e: "emap ?f (zip [0..<length hs] hs) = Inr ys"
    by (simp add: apply_tokens_def)
  note n = emap_nth[OF e]
  from n(1) show "length ys = length hs" by simp
  assume b: "b < length hs"
  with n(2)[of b] have "emap (\<lambda>(s, x). apply_seq t (keep b s) net x)
      (zip [0..<length (hs ! b)] (hs ! b)) = Inr (ys ! b)"
    by simp
  from emap_nth(1)[OF this] show "length (ys ! b) = length (hs ! b)" by simp
qed

lemma topk_length: "topk k xs = Inr (vs, is) \<Longrightarrow> length is = k"
  by (auto simp: topk_def Let_def split: if_splits)

lemma topk_tokens_lengths:
  assumes "topk_tokens k probs = Inr (tp, ti)" "b < length probs" "s < length (probs ! b)"
  shows "length (ti ! b ! s) = k"
proof -
  from assms(1) obtain sel where sel: "emap (emap (topk k)) probs = Inr sel"
    and ti: "ti = map (map snd) sel"
    by (auto simp: topk_tokens_def ebind_Inr)
  note n = emap_nth[OF sel]
  from n(2)[OF assms(2)] have row: "emap (topk k) (probs ! b) = Inr (sel ! b)" .
  note m = emap_nth[OF row]
  from m(2)[OF assms(3)] have "topk k (probs ! b ! s) = Inr (sel ! b ! s)" .
  then have "length (snd (sel ! b ! s)) = k"
    by (cases "sel ! b ! s") (auto dest: topk_length)
  moreover have "ti ! b ! s = snd (sel ! b ! s)"
    using assms(2,3) n(1) m(1) by (simp add: ti)
  ultimately show ?thesis by simp
qed


lemma efold_single: "efold F a [x] = Inr c \<Longrightarrow> F a x = Inr c"
  by (auto split: sum.splits)

text \<open>
  C4. In a hierarchical router with 4 groups and 8 experts, 2 per group, a
  token whose selected groups are just group 2 has composed probabilities that
  are zero at every expert but 4 and 5, and at expert \<open>4 + i\<close> the product of
  its group probability and the \<open>i\<close>-th probability of group 2's own network.
\<close>

theorem hierarchical_group_two:
  assumes cfg: "num_groups r = 4" "num_experts r = 8" "experts_per_group r = 2"
    and hp: "hierarchical_probs r hidden_states keep
               = Inr (group_probs, top_group_probs, top_group_indices, final_expert_probs)"
    and rect: "rectangular hidden_states"
    and tok: "b < batch_size_of hidden_states" "s < seq_len_of hidden_states"
    and sel: "top_group_indices ! b ! s = [2]"
  shows "\<exists>net logits.
           at_index (intra_group_routers r) 2 = Inr net \<and>
           apply_seq (training r) (\<lambda>_. True) net (hidden_states ! b ! s) = Inr logits \<and>
           1 < length logits \<and>
           final_expert_probs ! b ! s
             = [0, 0, 0, 0,
                softmax logits ! 0 * (top_group_probs ! b ! s ! 0),
                softmax logits ! 1 * (top_group_probs ! b ! s ! 0),
                0, 0] \<and>
           (\<forall>e<8. e \<noteq> 4 \<and> e \<noteq> 5 \<longrightarrow> final_expert_probs ! b ! s ! e = 0)"
proof -
  let ?B = "batch_size_of hidden_states" and ?S = "seq_len_of hidden_states"
  let ?gk = "min (group_top_k r) (num_groups r)"
  let ?zeros = "replicate ?B (replicate ?S (replicate (num_experts r) (0::real)))"
  from hp obtain gl where
    gl: "apply_tokens (training r) keep (group_router r) hidden_states = Inr gl" and
    k1: "ebind (topk_tokens ?gk (map (map softmax) gl))
           (\<lambda>(tgp, tgi).
              ebind (efold (\<lambda>f j. efold (route_group r hidden_states tgp tgi j)
                                      f [0..<num_groups r]) ?zeros [0..<?gk])
                (\<lambda>fin. Inr (map (map softmax) gl, tgp, tgi, fin)))
         = Inr (group_probs, top_group_probs, top_group_indices, final_expert_probs)"
    unfolding hierarchical_probs_def Let_def ebind_Inr by blast
  from k1 obtain pr where
    tk0: "topk_tokens ?gk (map (map softmax) gl) = Inr pr" and
    k2: "(case pr of (tgp, tgi) \<Rightarrow>
              ebind (efold (\<lambda>f j. efold (route_group r hidden_states tgp tgi j)
                                      f [0..<num_groups r]) ?zeros [0..<?gk])
                (\<lambda>fin. Inr (map (map softmax) gl, tgp, tgi, fin)))
         = Inr (group_probs, top_group_probs, top_group_indices, final_expert_probs)"
    unfolding ebind_Inr by blast
  obtain a c where pr: "pr = (a, c)" by (cases pr) auto
  from k2 obtain fin where
    ef0: "efold (\<lambda>f j. efold (route_group r hidden_states a c j)
                                      f [0..<num_groups r]) ?zeros [0..<?gk] = Inr fin" and
    eqs: "(map (map softmax) gl, a, c, fin)
            = (group_probs, top_group_probs, top_group_indices, final_expert_probs)"
    unfolding pr prod.case ebind_Inr by blast
  from eqs have e4: "a = top_group_probs" "c = top_group_indices" "fin = final_expert_probs"
    by simp_all
  have tk: "topk_tokens ?gk (map (map softmax) gl) = Inr (top_group_probs, top_group_indices)"
    using tk0 unfolding pr e4 .
  have ef: "efold (\<lambda>f j. efold (route_group r hidden_states top_group_probs top_group_indices j)
                            f [0..<num_groups r]) ?zeros [0..<?gk] = Inr final_expert_probs"
    using ef0 unfolding e4 .
  have bl: "b < length hidden_states" using tok(1) by (simp add: batch_size_of_def)
  from rect bl have row: "length (hidden_states ! b) = ?S"
    by (simp add: rectangular_def list_all_length)
  note sh = apply_tokens_shape[OF gl]
  have "length (top_group_indices ! b ! s) = ?gk"
    by (rule topk_tokens_lengths[OF tk]) (use sh bl row tok(2) in simp_all)
  with sel have gk: "?gk = 1" by simp
  have one: "[0..<1] = [0::nat]" by simp
  from ef have "efold (route_group r hidden_states top_group_probs top_group_indices 0)
                  ?zeros [0..<num_groups r] = Inr final_expert_probs"
    unfolding gk one by (rule efold_single)
  moreover have "set [0..<num_groups r] \<subseteq> {..<4}" "distinct [0..<num_groups r]"
    using cfg(1) by auto
  moreover have "b < length ?zeros" "s < length (?zeros ! b)"
    using tok bl by (simp_all add: batch_size_of_def)
  ultimately have g: "top_group_indices ! b ! s ! 0 \<in> set [0..<num_groups r] \<longrightarrow>
            (\<exists>net logits. at_index (intra_group_routers r) (top_group_indices ! b ! s ! 0) = Inr net \<and>
               apply_seq (training r) (\<lambda>_. True) net (hidden_states ! b ! s) = Inr logits \<and>
               1 < length logits \<and>
               final_expert_probs ! b ! s = (?zeros ! b ! s)
                 [top_group_indices ! b ! s ! 0 * 2 := softmax logits ! 0 * (top_group_probs ! b ! s ! 0),
                  top_group_indices ! b ! s ! 0 * 2 + 1 := softmax logits ! 1 * (top_group_probs ! b ! s ! 0)])"
    using groups_token[OF cfg(3,2) tok, of top_group_probs top_group_indices 0 ?zeros
        "[0..<num_groups r]" final_expert_probs]
    by blast
  have z: "?zeros ! b ! s = [0, 0, 0, 0, 0, 0, 0, 0]"
    using tok bl by (simp add: batch_size_of_def cfg(2) numeral_eq_Suc)
  have s0: "top_group_indices ! b ! s ! 0 = 2" using sel by simp
  from g obtain net logits where
    n: "at_index (intra_group_routers r) 2 = Inr net"
    "apply_seq (training r) (\<lambda>_. True) net (hidden_states ! b ! s) = Inr logits"
    "1 < length logits" and
    f: "final_expert_probs ! b ! s
          = [0, 0, 0, 0, 0, 0, 0, 0]
              [2 * 2 := softmax logits ! 0 * (top_group_probs ! b ! s ! 0),
               2 * 2 + 1 := softmax logits ! 1 * (top_group_probs ! b ! s ! 0)]"
    unfolding s0 z using cfg(1) by auto
  have f': "final_expert_probs ! b ! s
             = [0, 0, 0, 0,
                softmax logits ! 0 * (top_group_probs ! b ! s ! 0),
                softmax logits ! 1 * (top_group_probs ! b ! s ! 0),
                0, 0]"
    unfolding f by (simp add: numeral_eq_Suc)
  have "\<forall>e<8. e \<noteq> 4 \<and> e \<noteq> 5 \<longrightarrow> final_expert_probs ! b ! s ! e = 0"
  proof (intro allI impI)
    fix e :: nat assume "e < 8" "e \<noteq> 4 \<and> e \<noteq> 5"
    then have "e = 0 \<or> e = 1 \<or> e = 2 \<or> e = 3 \<or> e = 6 \<or> e = 7" by arith
    then show "final_expert_probs ! b ! s ! e = 0"
      unfolding f' by (auto simp: numeral_eq_Suc)
  qed
  with n f' show ?thesis by blast
qed

lemma th_fields:
  "num_groups trained_hierarchical = 4" "num_experts trained_hierarchical = 8"
  "experts_per_group trained_hierarchical = 2" "group_top_k trained_hierarchical = 1"
  "training trained_hierarchical = True"
  "group_router trained_hierarchical
     = [Linear [] [], ReLU, Dropout 0, Linear [[], [], [], []] [0, 0, ln 2, 0]]"
  "intra_group_routers trained_hierarchical = replicate 4 [Linear [] [], ReLU, Linear [[], []] [0, 0]]"
  by (simp_all add: trained_hierarchical_def)

lemma th_group_logits:
  "apply_tokens True keep_all (group_router trained_hierarchical) [[[0]]]
     = Inr [[[0, 0, ln 2, 0]]]"
  by (simp add: th_fields apply_tokens_def keep_all_def dot_def)

lemma th_group_softmax: "softmax [0, 0, ln 2, 0] = [1 / 5, 1 / 5, 2 / 5, 1 / 5]"
  by (simp add: softmax_def)

lemma th_group_topk:
  "topk_tokens 1 [[[1 / 5, 1 / 5, 2 / 5, 1 / 5]]] = Inr ([[[2 / 5]]], [[[2]]])"
  by (simp add: topk_tokens_def topk_def ebind_def u4)

lemma th_positions: "token_positions (Suc 0) (Suc 0) = [(0, 0)]"
  by (simp add: token_positions_def)

lemma th_route_other:
  "g \<noteq> 2 \<Longrightarrow> route_group trained_hierarchical [[[0]]] [[[2 / 5]]] [[[2]]] 0 f g = Inr f"
  by (simp add: route_group_def batch_size_of_def seq_len_of_def th_positions Let_def)

lemma th_route_two:
  "route_group trained_hierarchical [[[0]]] [[[2 / 5]]] [[[2]]] 0 [[[0, 0, 0, 0, 0, 0, 0, 0]]] 2
     = Inr [[[0, 0, 0, 0, 1 / 5, 1 / 5, 0, 0]]]"
  by (simp add: route_group_def batch_size_of_def seq_len_of_def th_positions th_fields
      at_index_def ebind_def rep4 dot_def softmax_def u2 scatter_column_def put_def Let_def)


lemma efold_single_eq: "efold F a [x] = F a x"
  by (cases "F a x") simp_all

lemma th_probs:
  "hierarchical_probs trained_hierarchical [[[0]]] keep_all
     = Inr ([[[1 / 5, 1 / 5, 2 / 5, 1 / 5]]], [[[2 / 5]]], [[[2]]],
            [[[0, 0, 0, 0, 1 / 5, 1 / 5, 0, 0]]])"
proof -
  have bs: "batch_size_of [[[0::real]]] = 1" "seq_len_of [[[0::real]]] = 1"
    by (simp_all add: batch_size_of_def seq_len_of_def)
  have z: "replicate 1 (replicate 1 (replicate 8 (0::real))) = [[[0, 0, 0, 0, 0, 0, 0, 0]]]"
    by (simp add: numeral_eq_Suc)
  have sm: "map (map softmax) [[[0, 0, ln 2, 0]]] = [[[1 / 5, 1 / 5, 2 / 5, 1 / 5]]]"
    by (simp add: th_group_softmax)
  have gk: "min (1::nat) 4 = 1" "[0..<1] = [0::nat]" by simp_all
  have inner: "efold (route_group trained_hierarchical [[[0]]] [[[2 / 5]]] [[[2]]] 0)
                 [[[0, 0, 0, 0, 0, 0, 0, 0]]] [0, 1, 2, 3]
               = Inr [[[0, 0, 0, 0, 1 / 5, 1 / 5, 0, 0]]]"
    by (simp add: th_route_other th_route_two)
  show ?thesis
    unfolding hierarchical_probs_def Let_def bs th_fields(1,2,4,5) gk z th_group_logits
    by (simp only: ebind_def sum.case sm th_group_topk prod.case efold_single_eq u4 inner)
qed

theorem hierarchical_group_two_witness:
  "hierarchical_probs trained_hierarchical [[[0]]] keep_all
     = Inr ([[[1 / 5, 1 / 5, 2 / 5, 1 / 5]]], [[[2 / 5]]], [[[2]]],
            [[[0, 0, 0, 0, 1 / 5, 1 / 5, 0, 0]]]) \<and>
   (\<exists>net logits.
      at_index (intra_group_routers trained_hierarchical) 2 = Inr net \<and>
      apply_seq (training trained_hierarchical) (\<lambda>_. True) net ([[[0]]] ! 0 ! 0) = Inr logits \<and>
      1 < length logits \<and>
      [[[0, 0, 0, 0, 1 / 5, 1 / 5, 0, 0]]] ! 0 ! 0
        = [0, 0, 0, 0, softmax logits ! 0 * ([[[2 / 5]]] ! 0 ! 0 ! 0),
           softmax logits ! 1 * ([[[2 / 5]]] ! 0 ! 0 ! 0), 0, 0] \<and>
      (\<forall>e<8. e \<noteq> 4 \<and> e \<noteq> 5 \<longrightarrow> [[[0, 0, 0, 0, 1 / 5, 1 / 5, 0, 0 :: real]]] ! 0 ! 0 ! e = 0))"
proof -
  have r: "rectangular [[[0::real]]]" by (simp add: rectangular_def seq_len_of_def)
  have t: "0 < batch_size_of [[[0::real]]]" "0 < seq_len_of [[[0::real]]]"
    by (simp_all add: batch_size_of_def seq_len_of_def)
  have s: "[[[2::nat]]] ! 0 ! 0 = [2]" by simp
  from hierarchical_group_two[OF th_fields(1,2,3) th_probs r t s] th_probs
  show ?thesis by blast
qed

end
